theory Spec2Isabelle
  imports Main
begin

section \<open>Types and values as the reflection library shows them\<close>

text \<open>
  The resolver works on \<^verbatim>\<open>reflect.Type\<close> and \<^verbatim>\<open>interface{}\<close> values. A type is an
  interface, a struct with its fields (name, exported, type), a pointer, a function
  signature, or any other type (\<open>Basic\<close>). Two types are the same when they are equal
  as terms, as \<^verbatim>\<open>==\<close> on \<^verbatim>\<open>reflect.Type\<close> is.
\<close>

datatype rtype =
    Interface string
  | Struct string "StructField list"
  | Ptr rtype
  | Func "rtype list" "rtype list"
  | Basic string
and StructField = StructField (Name: string) (Exported: bool) (Type: rtype)

datatype kind = KInterface | KStruct | KPtr | KFunc | KOther

fun Kind :: "rtype \<Rightarrow> kind" where
  "Kind (Interface n) = KInterface"
| "Kind (Struct n fs) = KStruct"
| "Kind (Ptr t) = KPtr"
| "Kind (Func ins outs) = KFunc"
| "Kind (Basic n) = KOther"

fun commaSep :: "string list \<Rightarrow> string" where
  "commaSep [] = []"
| "commaSep [s] = s"
| "commaSep (s # t) = s @ '', '' @ commaSep t"

text \<open>\<^verbatim>\<open>Type.String()\<close>: the name of a named type, \<^verbatim>\<open>*T\<close> for a pointer, the
  signature for a function type.\<close>

fun rtype_String :: "rtype \<Rightarrow> string" where
  "rtype_String (Interface n) = n"
| "rtype_String (Struct n fs) = n"
| "rtype_String (Ptr t) = ''*'' @ rtype_String t"
| "rtype_String (Func ins outs) =
     ''func('' @ commaSep (map rtype_String ins) @ '')'' @
     (case outs of
        [] \<Rightarrow> []
      | [t] \<Rightarrow> '' '' @ rtype_String t
      | _ \<Rightarrow> '' ('' @ commaSep (map rtype_String outs) @ '')'')"
| "rtype_String (Basic n) = n"

text \<open>
  Errors. The three sentinels of \<^verbatim>\<open>constants.go\<close>, an error made by \<^verbatim>\<open>fmt.Errorf\<close>
  without \<^verbatim>\<open>%w\<close> (its message), and one made with \<^verbatim>\<open>%w\<close> (its message and the
  error it wraps). A factory may report any of them.
\<close>

datatype error =
    ErrServiceNotFound
  | ErrCircularDependency
  | ErrInvalidServiceType
  | Errorf string
  | Errorf_w string error

fun Error :: "error \<Rightarrow> string" where
  "Error ErrServiceNotFound = ''service not found''"
| "Error ErrCircularDependency = ''circular dependency detected''"
| "Error ErrInvalidServiceType = ''invalid service type''"
| "Error (Errorf msg) = msg"
| "Error (Errorf_w msg e) = msg"

text \<open>\<^verbatim>\<open>errors.Is\<close>: the error itself or one it wraps.\<close>

fun Is :: "error \<Rightarrow> error \<Rightarrow> bool" where
  "Is (Errorf_w msg e) target = (Errorf_w msg e = target \<or> Is e target)"
| "Is e target = (e = target)"

text \<open>
  A value held in an \<^verbatim>\<open>interface{}\<close>: the nil interface, a \<^verbatim>\<open>reflect.Type\<close>, the zero
  value of a type that is not an interface (a typed nil pointer \<^verbatim>\<open>(*T)(nil)\<close> is
  \<open>VZero (Ptr T)\<close>), a pointer to an allocated object (the pointee's type and the
  address), a function (parameter types, result types, and the two results a call
  with the provider returns: functions are modelled by what a call returns and do not
  touch the provider), or another value of a given type.
\<close>

datatype val =
    VNil
  | VType rtype
  | VZero rtype
  | VPtr rtype nat
  | VFunc "rtype list" "rtype list" "val \<times> error option"
  | VOpaque rtype string

text \<open>\<^verbatim>\<open>reflect.TypeOf\<close>; it is nil for the nil interface.\<close>

fun typeOf :: "val \<Rightarrow> rtype option" where
  "typeOf VNil = None"
| "typeOf (VType t) = Some (Ptr (Struct ''reflect.rtype'' []))"
| "typeOf (VZero t) = Some t"
| "typeOf (VPtr t a) = Some (Ptr t)"
| "typeOf (VFunc ins outs res) = Some (Func ins outs)"
| "typeOf (VOpaque t s) = Some t"

text \<open>\<^verbatim>\<open>Type.Elem()\<close> panics on a type that has no element type.\<close>

fun Elem :: "rtype \<Rightarrow> rtype option" where
  "Elem (Ptr t) = Some t"
| "Elem t = None"

fun zeroValue :: "rtype \<Rightarrow> val" where
  "zeroValue (Interface n) = VNil"
| "zeroValue t = VZero t"

section \<open>Registrations (container.go)\<close>

datatype ServiceLifetime = Transient | Scoped | Singleton

record DependencyRegistration =
  ServiceType :: rtype
  Implementation :: val
  Factory :: val
  Instance :: val
  Lifetime :: ServiceLifetime

record Container =
  c_registrations :: "DependencyRegistration list"


text \<open>
  The contract identity of an argument: a \<^verbatim>\<open>reflect.Type\<close> is taken as it is, of any
  other value the element type of its type (\<^verbatim>\<open>(*I)(nil)\<close> names \<open>I\<close>); \<open>None\<close> is
  the panic of \<^verbatim>\<open>reflect.TypeOf(x).Elem()\<close>.
\<close>

definition typeObj :: "val \<Rightarrow> rtype option" where
  "typeObj serviceType =
     (case serviceType of
        VType t \<Rightarrow> Some t
      | _ \<Rightarrow> (case typeOf serviceType of None \<Rightarrow> None | Some t \<Rightarrow> Elem t))"

definition addService ::
  "Container \<Rightarrow> val \<Rightarrow> val \<Rightarrow> val \<Rightarrow> val \<Rightarrow> ServiceLifetime \<Rightarrow> Container option" where
  "addService s serviceType implementation factory instance lifetime =
     (case typeObj serviceType of
        None \<Rightarrow> None
      | Some serviceTypeObj \<Rightarrow>
          Some (s\<lparr>c_registrations := c_registrations s @
            [\<lparr>ServiceType = serviceTypeObj, Implementation = implementation,
              Factory = factory, Instance = instance, Lifetime = lifetime\<rparr>]\<rparr>))"

definition AddSingleton :: "Container \<Rightarrow> val \<Rightarrow> val \<Rightarrow> Container option" where
  "AddSingleton s serviceType implementation =
     addService s serviceType implementation VNil VNil Singleton"

definition AddSingletonByFactory :: "Container \<Rightarrow> val \<Rightarrow> val \<Rightarrow> Container option" where
  "AddSingletonByFactory s serviceType factory =
     addService s serviceType VNil factory VNil Singleton"


definition AddScoped :: "Container \<Rightarrow> val \<Rightarrow> val \<Rightarrow> Container option" where
  "AddScoped s serviceType implementation =
     addService s serviceType implementation VNil VNil Scoped"

definition AddScopedByFactory :: "Container \<Rightarrow> val \<Rightarrow> val \<Rightarrow> Container option" where
  "AddScopedByFactory s serviceType factory =
     addService s serviceType VNil factory VNil Scoped"


definition AddTransientByFactory :: "Container \<Rightarrow> val \<Rightarrow> val \<Rightarrow> Container option" where
  "AddTransientByFactory s serviceType factory =
     addService s serviceType VNil factory VNil Transient"

section \<open>The provider and its store (provider.go)\<close>

text \<open>
  A provider is reached through a pointer, and a scope shares its root's singleton
  cache: providers live in a store indexed by address, \<open>root\<close> is the address of the
  root, and the singleton cache is read and written as \<^verbatim>\<open>p.root.singletonCache\<close>, the
  only way the source reaches it. \<open>mu\<close> tells whether the provider's lock is held.
\<close>

record InjectionProvider =
  root :: nat
  registrations :: "DependencyRegistration list"
  singletonCache :: "rtype \<rightharpoonup> val"
  scopedCache :: "rtype \<rightharpoonup> val"
  resolutionStack :: "rtype list"
  mu :: bool

text \<open>
  The world: the providers, the struct objects made by \<^verbatim>\<open>reflect.New\<close> (the values of
  their fields, by address), the next free addresses, and the method-set relation of
  the program's types (\<open>Implements t i\<close>: a value of type \<open>t\<close> can be stored in a
  variable of interface type \<open>i\<close>), which the resolver consults through
  \<^verbatim>\<open>Type.Implements\<close> and \<^verbatim>\<open>Value.Set\<close> and never changes.
\<close>

record world =
  providers :: "nat \<Rightarrow> InjectionProvider"
  nextProvider :: nat
  memory :: "nat \<Rightarrow> val list"
  allocated :: nat
  Implements :: "rtype \<Rightarrow> rtype \<Rightarrow> bool"

text \<open>
  What a call does: it returns (a result and the world it leaves), it panics, or it
  blocks for ever on a lock that is already held.
\<close>

datatype 'a outcome = Return 'a world | Panic string | Deadlock

definition BuildServiceProvider :: "Container \<Rightarrow> world \<Rightarrow> nat \<times> world" where
  "BuildServiceProvider s w =
     (let provider = nextProvider w in
      (provider,
       w\<lparr>providers := (providers w)(provider :=
            \<lparr>root = provider, registrations = c_registrations s,
              singletonCache = Map.empty, scopedCache = Map.empty,
              resolutionStack = [], mu = False\<rparr>),
         nextProvider := Suc provider\<rparr>))"

definition CreateScope :: "nat \<Rightarrow> world \<Rightarrow> nat \<times> world" where
  "CreateScope p w =
     (let scope = nextProvider w in
      (scope,
       w\<lparr>providers := (providers w)(scope :=
            \<lparr>root = root (providers w p), registrations = registrations (providers w p),
              singletonCache = singletonCache (providers w (root (providers w p))),
              scopedCache = Map.empty, resolutionStack = [], mu = False\<rparr>),
         nextProvider := Suc scope\<rparr>))"

section \<open>The resolver\<close>

text \<open>
  \<^verbatim>\<open>provider.go\<close> holds the provider twice: the one of package \<^verbatim>\<open>syringe\<close> (names
  ending in \<open>_syringe\<close> here) and the one of package \<^verbatim>\<open>main\<close> (\<open>_main\<close>). Their
  \<^verbatim>\<open>resolveService\<close>, \<^verbatim>\<open>callFactory\<close> and \<^verbatim>\<open>createInstance\<close> read the same; they differ in
  \<^verbatim>\<open>GetService\<close> (package syringe injects into what it resolved) and in
  \<^verbatim>\<open>injectDependencies\<close> (package syringe resolves a field through \<^verbatim>\<open>GetService\<close>,
  package main through \<^verbatim>\<open>resolveService\<close>).
\<close>

subsection \<open>The steps both packages share\<close>

text \<open>\<^verbatim>\<open>reflect.TypeOf(p)\<close> of a provider, and the type \<^verbatim>\<open>error\<close>.\<close>

definition providerType :: rtype where
  "providerType = Ptr (Struct ''InjectionProvider'' [])"

definition errorType :: rtype where
  "errorType = Interface ''error''"

text \<open>The registration loop \<^verbatim>\<open>for i := len(p.registrations) - 1; i >= 0; i--\<close>:
  \<open>findFrom regs t n\<close> looks at the indices below \<open>n\<close>, the highest first.\<close>

fun findFrom :: "DependencyRegistration list \<Rightarrow> rtype \<Rightarrow> nat \<Rightarrow> DependencyRegistration option" where
  "findFrom regs serviceType 0 = None"
| "findFrom regs serviceType (Suc i) =
     (if ServiceType (regs ! i) = serviceType then Some (regs ! i)
      else findFrom regs serviceType i)"

definition findRegistration :: "DependencyRegistration list \<Rightarrow> rtype \<Rightarrow> DependencyRegistration option" where
  "findRegistration regs serviceType = findFrom regs serviceType (length regs)"

text \<open>The path of a circular-dependency error: every entry of the stack followed by
  \<^verbatim>\<open>" -> "\<close>, then the requested type.\<close>

definition cyclePath :: "rtype list \<Rightarrow> rtype \<Rightarrow> string" where
  "cyclePath stack serviceType =
     foldl (\<lambda>path p. path @ rtype_String p @ '' -> '') [] stack @ rtype_String serviceType"

definition pushStack :: "nat \<Rightarrow> rtype \<Rightarrow> world \<Rightarrow> world" where
  "pushStack p serviceType w =
     w\<lparr>providers := (providers w)(p := (providers w p)
        \<lparr>resolutionStack := resolutionStack (providers w p) @ [serviceType]\<rparr>)\<rparr>"

definition popStack :: "nat \<Rightarrow> world \<Rightarrow> world" where
  "popStack p w =
     w\<lparr>providers := (providers w)(p := (providers w p)
        \<lparr>resolutionStack := butlast (resolutionStack (providers w p))\<rparr>)\<rparr>"

text \<open>The deferred \<^verbatim>\<open>p.resolutionStack = p.resolutionStack[:len(p.resolutionStack)-1]\<close>
  runs when \<^verbatim>\<open>resolveService\<close> returns; on an empty stack the slice expression panics.\<close>

definition deferPop :: "nat \<Rightarrow> 'a outcome \<Rightarrow> 'a outcome" where
  "deferPop p out =
     (case out of
        Return r w \<Rightarrow>
          if resolutionStack (providers w p) = [] then Panic ''slice bounds out of range [:-1]''
          else Return r (popStack p w)
      | Panic msg \<Rightarrow> Panic msg
      | Deadlock \<Rightarrow> Deadlock)"

definition Lock :: "nat \<Rightarrow> world \<Rightarrow> world" where
  "Lock p w = w\<lparr>providers := (providers w)(p := (providers w p)\<lparr>mu := True\<rparr>)\<rparr>"

definition Unlock :: "nat \<Rightarrow> world \<Rightarrow> world" where
  "Unlock p w = w\<lparr>providers := (providers w)(p := (providers w p)\<lparr>mu := False\<rparr>)\<rparr>"

definition deferUnlock :: "nat \<Rightarrow> 'a outcome \<Rightarrow> 'a outcome" where
  "deferUnlock p out =
     (case out of
        Return r w \<Rightarrow> Return r (Unlock p w)
      | Panic msg \<Rightarrow> Panic msg
      | Deadlock \<Rightarrow> Deadlock)"

definition resetStack :: "nat \<Rightarrow> world \<Rightarrow> world" where
  "resetStack p w = w\<lparr>providers := (providers w)(p := (providers w p)\<lparr>resolutionStack := []\<rparr>)\<rparr>"

text \<open>The \<^verbatim>\<open>switch registration.Lifetime\<close> at the end of \<^verbatim>\<open>resolveService\<close>.\<close>

definition cacheInstance :: "nat \<Rightarrow> rtype \<Rightarrow> ServiceLifetime \<Rightarrow> val \<Rightarrow> world \<Rightarrow> world" where
  "cacheInstance p serviceType lifetime instance w =
     (case lifetime of
        Singleton \<Rightarrow>
          (let r = root (providers w p) in
           w\<lparr>providers := (providers w)(r := (providers w r)
              \<lparr>singletonCache := (singletonCache (providers w r))(serviceType \<mapsto> instance)\<rparr>)\<rparr>)
      | Scoped \<Rightarrow>
          w\<lparr>providers := (providers w)(p := (providers w p)
             \<lparr>scopedCache := (scopedCache (providers w p))(serviceType \<mapsto> instance)\<rparr>)\<rparr>
      | Transient \<Rightarrow> w)"

text \<open>
  \<^verbatim>\<open>callFactory\<close>. \<^verbatim>\<open>NumIn\<close> panics on a value that is no function. The factory's
  second result is modelled as an optional error (\<open>None\<close> is nil).
\<close>

definition callFactory :: "nat \<Rightarrow> val \<Rightarrow> rtype \<Rightarrow> world \<Rightarrow> (error + val) outcome" where
  "callFactory p factory serviceType w =
     (case factory of
        VFunc ins outs results \<Rightarrow>
          if length ins = 1 \<and> ins ! 0 = providerType \<and> length outs = 2 \<and>
             Implements w (outs ! 1) errorType
          then (case snd results of
                  Some err \<Rightarrow> Return (Inl err) w
                | None \<Rightarrow> Return (Inr (fst results)) w)
          else Return (Inl (Errorf (''invalid factory function for '' @ rtype_String serviceType))) w
      | _ \<Rightarrow> Panic ''reflect: NumIn of non-func type'')"

text \<open>\<^verbatim>\<open>reflect.New\<close> of a struct type: a new object with every field at its zero value.
  \<open>Set_field\<close> is \<^verbatim>\<open>Value.Set\<close> on field \<open>i\<close> of the object at address \<open>a\<close>.\<close>

definition New :: "string \<Rightarrow> StructField list \<Rightarrow> world \<Rightarrow> val \<times> world" where
  "New name sfields w =
     (VPtr (Struct name sfields) (allocated w),
      w\<lparr>memory := (memory w)(allocated w := map (\<lambda>f. zeroValue (Type f)) sfields),
        allocated := Suc (allocated w)\<rparr>)"

definition Set_field :: "nat \<Rightarrow> nat \<Rightarrow> val \<Rightarrow> world \<Rightarrow> world" where
  "Set_field a i v w = w\<lparr>memory := (memory w)(a := (memory w a)[i := v])\<rparr>"

subsection \<open>Package main\<close>

text \<open>
  \<open>injectFields_main p a sfields i\<close> is the loop of \<^verbatim>\<open>injectDependencies\<close> from field
  \<open>i\<close> on, over the object at address \<open>a\<close>. \<^verbatim>\<open>Value.Set\<close> panics on the zero
  \<^verbatim>\<open>reflect.Value\<close> (which \<^verbatim>\<open>reflect.ValueOf(nil)\<close> is) and on a value that is not
  assignable to the field's type.
\<close>

function resolveService_main :: "nat \<Rightarrow> rtype \<Rightarrow> world \<Rightarrow> (error + val) outcome"
  and createInstance_main :: "nat \<Rightarrow> val \<Rightarrow> world \<Rightarrow> (error + val) outcome"
  and injectDependencies_main :: "nat \<Rightarrow> val \<Rightarrow> world \<Rightarrow> error option outcome"
  and injectFields_main :: "nat \<Rightarrow> nat \<Rightarrow> StructField list \<Rightarrow> nat \<Rightarrow> world \<Rightarrow> error option outcome"
where
  "resolveService_main p serviceType w =
     (if serviceType \<in> set (resolutionStack (providers w p))
      then Return (Inl (Errorf_w (Error ErrCircularDependency @ '': '' @
             cyclePath (resolutionStack (providers w p)) serviceType) ErrCircularDependency)) w
      else deferPop p
        (let w1 = pushStack p serviceType w in
         case singletonCache (providers w1 (root (providers w1 p))) serviceType of
           Some instance \<Rightarrow> Return (Inr instance) w1
         | None \<Rightarrow>
         (case scopedCache (providers w1 p) serviceType of
           Some instance \<Rightarrow> Return (Inr instance) w1
         | None \<Rightarrow>
         (case findRegistration (registrations (providers w1 p)) serviceType of
           None \<Rightarrow> Return (Inl (Errorf_w (Error ErrServiceNotFound @ '': '' @
                      rtype_String serviceType) ErrServiceNotFound)) w1
         | Some registration \<Rightarrow>
             if Instance registration \<noteq> VNil then
               Return (Inr (Instance registration))
                 (cacheInstance p serviceType (Lifetime registration) (Instance registration) w1)
             else if Factory registration \<noteq> VNil then
               (case callFactory p (Factory registration) serviceType w1 of
                  Return (Inl err) w2 \<Rightarrow> Return (Inl err) w2
                | Return (Inr instance) w2 \<Rightarrow>
                    Return (Inr instance)
                      (cacheInstance p serviceType (Lifetime registration) instance w2)
                | Panic msg \<Rightarrow> Panic msg
                | Deadlock \<Rightarrow> Deadlock)
             else if Implementation registration \<noteq> VNil then
               (case createInstance_main p (Implementation registration) w1 of
                  Return (Inl err) w2 \<Rightarrow> Return (Inl err) w2
                | Return (Inr instance) w2 \<Rightarrow>
                    Return (Inr instance)
                      (cacheInstance p serviceType (Lifetime registration) instance w2)
                | Panic msg \<Rightarrow> Panic msg
                | Deadlock \<Rightarrow> Deadlock)
             else Return (Inl (Errorf_w (Error ErrInvalidServiceType @
                    '': no implementation for '' @ rtype_String serviceType)
                    ErrInvalidServiceType)) w1))))"
| "createInstance_main p implementation w =
     (case (case implementation of VType t \<Rightarrow> Some t | _ \<Rightarrow> typeOf implementation) of
        None \<Rightarrow> Panic ''invalid memory address or nil pointer dereference''
      | Some implType \<Rightarrow>
        (case implType of
           Ptr (Struct name sfields) \<Rightarrow>
             (case New name sfields w of (instance, w1) \<Rightarrow>
               (case injectDependencies_main p instance w1 of
                  Return (Some err) w2 \<Rightarrow> Return (Inl err) w2
                | Return None w2 \<Rightarrow> Return (Inr instance) w2
                | Panic msg \<Rightarrow> Panic msg
                | Deadlock \<Rightarrow> Deadlock))
         | _ \<Rightarrow> Return (Inl (Errorf (''implementation must be a pointer to struct: '' @
                  rtype_String implType))) w))"
| "injectDependencies_main p instance w =
     (case instance of
        VPtr (Struct name sfields) a \<Rightarrow> injectFields_main p a sfields 0 w
      | _ \<Rightarrow> Panic ''reflect: call of reflect.Value.Type on zero Value'')"
| "injectFields_main p a sfields i w =
     (if i < length sfields then
        (if \<not> Exported (sfields ! i) then injectFields_main p a sfields (Suc i) w
         else if Kind (Type (sfields ! i)) = KInterface then
           (case resolveService_main p (Type (sfields ! i)) w of
              Return (Inr service) w1 \<Rightarrow>
                (case typeOf service of
                   None \<Rightarrow> Panic ''reflect: call of reflect.Value.Set on zero Value''
                 | Some t \<Rightarrow>
                     if Implements w1 t (Type (sfields ! i))
                     then injectFields_main p a sfields (Suc i) (Set_field a i service w1)
                     else Panic ''reflect.Set: value is not assignable to type'')
            | Return (Inl err) w1 \<Rightarrow> injectFields_main p a sfields (Suc i) w1
            | Panic msg \<Rightarrow> Panic msg
            | Deadlock \<Rightarrow> Deadlock)
         else injectFields_main p a sfields (Suc i) w)
      else Return None w)"
  by pat_completeness auto

text \<open>
  Termination. A nested resolution runs with one more type on the resolution stack, a
  type that has a registration and was not on the stack: the number of registered
  types not on the stack (\<open>pending\<close>) decreases. That a call leaves the stack and the
  registrations as it found them (\<open>skeleton\<close>) is proved on the domain first.
\<close>

definition skeleton :: "world \<Rightarrow> nat \<Rightarrow> nat \<times> DependencyRegistration list \<times> rtype list \<times> bool" where
  "skeleton w p = (root (providers w p), registrations (providers w p),
     resolutionStack (providers w p), mu (providers w p))"

definition pending :: "world \<Rightarrow> nat \<Rightarrow> nat" where
  "pending w p = card (ServiceType ` set (registrations (providers w p)) -
     set (resolutionStack (providers w p)))"

lemma pending_skeleton: "skeleton w' = skeleton w \<Longrightarrow> pending w' p = pending w p"
  by (auto simp: pending_def skeleton_def fun_eq_iff)

lemma skeleton_cacheInstance [simp]: "skeleton (cacheInstance p t l v w) = skeleton w"
  by (cases l) (auto simp: cacheInstance_def skeleton_def fun_eq_iff Let_def)

lemma skeleton_Set_field [simp]: "skeleton (Set_field a i v w) = skeleton w"
  by (auto simp: Set_field_def skeleton_def fun_eq_iff)

lemma skeleton_New [simp]: "skeleton (snd (New n fs w)) = skeleton w"
  by (auto simp: New_def skeleton_def fun_eq_iff)

lemma skeleton_pop_push:
  "skeleton w2 = skeleton (pushStack p t w) \<Longrightarrow> skeleton (popStack p w2) = skeleton w"
  by (auto simp: skeleton_def pushStack_def popStack_def fun_eq_iff)

lemma callFactory_world: "callFactory p f t w = Return r w' \<Longrightarrow> w' = w"
  by (auto simp: callFactory_def split: val.splits if_splits option.splits)

definition keeps :: "world \<Rightarrow> 'a outcome \<Rightarrow> bool" where
  "keeps w out = (case out of Return r w' \<Rightarrow> skeleton w' = skeleton w | _ \<Rightarrow> True)"

lemma keeps_simps [simp]:
  "keeps w (Return r w') = (skeleton w' = skeleton w)"
  "keeps w (Panic m) = True"
  "keeps w Deadlock = True"
  by (simp_all add: keeps_def)

lemma keeps_trans: "keeps w1 out \<Longrightarrow> skeleton w1 = skeleton w \<Longrightarrow> keeps w out"
  by (cases out) simp_all

lemma keeps_deferred_pop:
  "keeps (pushStack p t w) out \<Longrightarrow> keeps w (deferPop p out)"
  by (cases out) (simp_all add: deferPop_def skeleton_pop_push)

lemma keeps_callFactory: "keeps w (callFactory p f t w)"
  by (simp add: callFactory_def split: val.split option.split)

lemma keeps_cached:
  "keeps w out \<Longrightarrow>
   keeps w (case out of
      Return (Inl err) w2 \<Rightarrow> Return (Inl err) w2
    | Return (Inr instance) w2 \<Rightarrow> Return (Inr instance) (cacheInstance p t l instance w2)
    | Panic msg \<Rightarrow> Panic msg
    | Deadlock \<Rightarrow> Deadlock)"
  by (cases out) (simp_all split: sum.split)

lemma main_skeleton_dom:
  "resolveService_main_createInstance_main_injectDependencies_main_injectFields_main_dom (Inl (Inl (p, t, w))) \<Longrightarrow>
     keeps w (resolveService_main p t w)"
  "resolveService_main_createInstance_main_injectDependencies_main_injectFields_main_dom (Inl (Inr (p, impl, w))) \<Longrightarrow>
     keeps w (createInstance_main p impl w)"
  "resolveService_main_createInstance_main_injectDependencies_main_injectFields_main_dom (Inr (Inl (p, inst, w))) \<Longrightarrow>
     keeps w (injectDependencies_main p inst w)"
  "resolveService_main_createInstance_main_injectDependencies_main_injectFields_main_dom (Inr (Inr (p, a, fs, i, w))) \<Longrightarrow>
     keeps w (injectFields_main p a fs i w)"
proof (induction rule: resolveService_main_createInstance_main_injectDependencies_main_injectFields_main.pinduct)
  case (1 p serviceType w)
  show ?case
    apply (subst resolveService_main.psimps [OF 1(1)])
    apply (auto simp: Let_def
        intro!: keeps_deferred_pop [where t = serviceType] keeps_cached keeps_callFactory 1(2)
        split: option.split)
    done
next
  case (2 p implementation w)
  have *: "keeps w1 out \<Longrightarrow> skeleton w1 = skeleton w \<Longrightarrow>
    keeps w (case out of Return (Some err) w2 \<Rightarrow> Return (Inl err) w2
       | Return None w2 \<Rightarrow> Return (Inr inst) w2 | Panic msg \<Rightarrow> Panic msg | Deadlock \<Rightarrow> Deadlock)"
    for w1 out inst
    by (cases out) (simp_all split: option.split)
  show ?case
    apply (subst createInstance_main.psimps [OF 2(1)])
    apply (auto split: option.split rtype.split prod.split intro!: * 2(2))
    apply (metis skeleton_New snd_conv)
    done
next
  case (3 p inst w)
  show ?case
    apply (subst injectDependencies_main.psimps [OF 3(1)])
    using 3(2)
    apply (simp split: val.split rtype.split)
    done
next
  case (4 p a sfields i w)
  show ?case
    apply (subst injectFields_main.psimps [OF 4(1)])
    using 4(2-)
    apply (auto split: outcome.split sum.split option.split)
     apply (erule keeps_trans, simp)
    apply (rule keeps_trans [where ?w1.0 = "Set_field a i _ _"])
     apply blast
    apply simp
    done
qed

definition main_measure :: "((nat \<times> rtype \<times> world) + (nat \<times> val \<times> world)) + ((nat \<times> val \<times> world) + (nat \<times> nat \<times> StructField list \<times> nat \<times> world)) \<Rightarrow> nat \<times> nat \<times> nat" where
  "main_measure x =
     (case x of
        Inl (Inl (p, t, w)) \<Rightarrow> (pending w p, 0, 0)
      | Inl (Inr (p, impl, w)) \<Rightarrow> (pending w p, 3, 0)
      | Inr (Inl (p, inst, w)) \<Rightarrow> (pending w p, 2, 0)
      | Inr (Inr (p, a, fs, i, w)) \<Rightarrow> (pending w p, 1, length fs - i))"

lemma findFrom_Some:
  "findFrom regs t n = Some r \<Longrightarrow> n \<le> length regs \<Longrightarrow> ServiceType r = t \<and> r \<in> set regs"
  by (induction n) (auto split: if_splits)

lemma findRegistration_Some:
  "findRegistration regs t = Some r \<Longrightarrow> ServiceType r = t \<and> r \<in> set regs"
  using findFrom_Some [of regs t "length regs" r] by (simp add: findRegistration_def)

lemma pending_push:
  assumes "t \<notin> set (resolutionStack (providers w p))"
    and "findRegistration (registrations (providers (pushStack p t w) p)) t = Some r"
  shows "pending (pushStack p t w) p < pending w p"
proof -
  let ?regs = "registrations (providers w p)"
  let ?st = "resolutionStack (providers w p)"
  have regs: "registrations (providers (pushStack p t w) p) = ?regs"
    and st: "resolutionStack (providers (pushStack p t w) p) = ?st @ [t]"
    by (simp_all add: pushStack_def)
  from assms(2) have "t \<in> ServiceType ` set ?regs"
    unfolding regs by (auto dest: findRegistration_Some)
  with assms(1) have "ServiceType ` set ?regs - set (?st @ [t]) \<subset> ServiceType ` set ?regs - set ?st"
    by auto
  then show ?thesis
    unfolding pending_def regs st by (intro psubset_card_mono) auto
qed

lemma pending_New: "(x, y) = New n fs w \<Longrightarrow> pending y p = pending w p"
  by (rule pending_skeleton) (metis skeleton_New snd_conv)

lemma main_pending_dom:
  assumes "resolveService_main_createInstance_main_injectDependencies_main_injectFields_main_dom (Inl (Inl (p, t, w)))"
    and "resolveService_main p t w = Return r w'"
  shows "pending w' q = pending w q"
proof (rule pending_skeleton)
  show "skeleton w' = skeleton w"
    using main_skeleton_dom(1) [OF assms(1)] assms(2) by simp
qed

lemma main_measure_simps [simp]:
  "main_measure (Inl (Inl (p, t, w))) = (pending w p, 0, 0)"
  "main_measure (Inl (Inr (p, impl, w))) = (pending w p, 3, 0)"
  "main_measure (Inr (Inl (p, inst, w))) = (pending w p, 2, 0)"
  "main_measure (Inr (Inr (p, a, fs, i, w))) = (pending w p, 1, length fs - i)"
  by (simp_all add: main_measure_def)

lemma main_total:
  "All resolveService_main_createInstance_main_injectDependencies_main_injectFields_main_dom"
proof (relation "inv_image (less_than <*lex*> less_than <*lex*> less_than) main_measure",
    goal_cases)
  case 1
  show ?case by (intro wf_inv_image wf_lex_prod wf_less_than)
next
  case (2 p serviceType w x x2)
  then have "pending x p < pending w p" by (simp add: pending_push)
  then show ?case by simp
next
  case (3 p implementation w x2 x3 x21 x22 x y)
  then have "pending y p = pending w p" by (intro pending_New)
  then show ?case by simp
next
  case 4
  show ?case by simp
next
  case (5 p a sfields i w)
  then have "length sfields - Suc i < length sfields - i" by simp
  then show ?case by simp
next
  case 6
  show ?case by simp
next
  case (7 p a sfields i w x11 x12 aa)
  then have "pending x12 p = pending w p" by (intro main_pending_dom)
  moreover from 7 have "length sfields - Suc i < length sfields - i" by simp
  ultimately show ?case by simp
next
  case (8 p a sfields i w x11 x12 b x2)
  then have "pending x12 p = pending w p" by (intro main_pending_dom)
  moreover have "pending (Set_field a i b x12) p = pending x12 p"
    by (rule pending_skeleton) simp
  moreover from 8 have "length sfields - Suc i < length sfields - i" by simp
  ultimately show ?case by simp
next
  case (9 p a sfields i w)
  then have "length sfields - Suc i < length sfields - i" by simp
  then show ?case by simp
qed

termination resolveService_main
  by (rule main_total)

declare resolveService_main.simps [simp del] createInstance_main.simps [simp del]
  injectDependencies_main.simps [simp del] injectFields_main.simps [simp del]

definition GetService_main :: "nat \<Rightarrow> val \<Rightarrow> world \<Rightarrow> (error + val) outcome" where
  "GetService_main p serviceType w =
     (case typeObj serviceType of
        None \<Rightarrow> Panic ''invalid memory address or nil pointer dereference''
      | Some t \<Rightarrow>
          if mu (providers w p) then Deadlock
          else deferUnlock p (resolveService_main p t (resetStack p (Lock p w))))"

subsection \<open>Package syringe\<close>

text \<open>
  \<^verbatim>\<open>GetService\<close> takes the provider's lock, which is not reentrant: a call on a provider
  whose lock is held blocks for ever. \<^verbatim>\<open>injectDependencies\<close> of this package skips
  anything that is not a pointer to a struct and sets a field only to a non-nil
  service.
\<close>

function GetService_syringe :: "nat \<Rightarrow> val \<Rightarrow> world \<Rightarrow> (error + val) outcome"
  and resolveService_syringe :: "nat \<Rightarrow> rtype \<Rightarrow> world \<Rightarrow> (error + val) outcome"
  and createInstance_syringe :: "nat \<Rightarrow> val \<Rightarrow> world \<Rightarrow> (error + val) outcome"
  and injectDependencies_syringe :: "nat \<Rightarrow> val \<Rightarrow> world \<Rightarrow> error option outcome"
  and injectFields_syringe :: "nat \<Rightarrow> nat \<Rightarrow> StructField list \<Rightarrow> nat \<Rightarrow> world \<Rightarrow> error option outcome"
where
  "GetService_syringe p serviceType w =
     (case typeObj serviceType of
        None \<Rightarrow> Panic ''invalid memory address or nil pointer dereference''
      | Some t \<Rightarrow>
          if mu (providers w p) then Deadlock
          else deferUnlock p
            (case resolveService_syringe p t (resetStack p (Lock p w)) of
               Return (Inl err) w1 \<Rightarrow> Return (Inl err) w1
             | Return (Inr instance) w1 \<Rightarrow>
                 if instance \<noteq> VNil then
                   (case injectDependencies_syringe p instance w1 of
                      Return (Some err) w2 \<Rightarrow> Return (Inl err) w2
                    | Return None w2 \<Rightarrow> Return (Inr instance) w2
                    | Panic msg \<Rightarrow> Panic msg
                    | Deadlock \<Rightarrow> Deadlock)
                 else Return (Inr instance) w1
             | Panic msg \<Rightarrow> Panic msg
             | Deadlock \<Rightarrow> Deadlock))"
| "resolveService_syringe p serviceType w =
     (if serviceType \<in> set (resolutionStack (providers w p))
      then Return (Inl (Errorf_w (Error ErrCircularDependency @ '': '' @
             cyclePath (resolutionStack (providers w p)) serviceType) ErrCircularDependency)) w
      else deferPop p
        (let w1 = pushStack p serviceType w in
         case singletonCache (providers w1 (root (providers w1 p))) serviceType of
           Some instance \<Rightarrow> Return (Inr instance) w1
         | None \<Rightarrow>
         (case scopedCache (providers w1 p) serviceType of
           Some instance \<Rightarrow> Return (Inr instance) w1
         | None \<Rightarrow>
         (case findRegistration (registrations (providers w1 p)) serviceType of
           None \<Rightarrow> Return (Inl (Errorf_w (Error ErrServiceNotFound @ '': '' @
                      rtype_String serviceType) ErrServiceNotFound)) w1
         | Some registration \<Rightarrow>
             if Instance registration \<noteq> VNil then
               Return (Inr (Instance registration))
                 (cacheInstance p serviceType (Lifetime registration) (Instance registration) w1)
             else if Factory registration \<noteq> VNil then
               (case callFactory p (Factory registration) serviceType w1 of
                  Return (Inl err) w2 \<Rightarrow> Return (Inl err) w2
                | Return (Inr instance) w2 \<Rightarrow>
                    Return (Inr instance)
                      (cacheInstance p serviceType (Lifetime registration) instance w2)
                | Panic msg \<Rightarrow> Panic msg
                | Deadlock \<Rightarrow> Deadlock)
             else if Implementation registration \<noteq> VNil then
               (case createInstance_syringe p (Implementation registration) w1 of
                  Return (Inl err) w2 \<Rightarrow> Return (Inl err) w2
                | Return (Inr instance) w2 \<Rightarrow>
                    Return (Inr instance)
                      (cacheInstance p serviceType (Lifetime registration) instance w2)
                | Panic msg \<Rightarrow> Panic msg
                | Deadlock \<Rightarrow> Deadlock)
             else Return (Inl (Errorf_w (Error ErrInvalidServiceType @
                    '': no implementation for '' @ rtype_String serviceType)
                    ErrInvalidServiceType)) w1))))"
| "createInstance_syringe p implementation w =
     (case (case implementation of VType t \<Rightarrow> Some t | _ \<Rightarrow> typeOf implementation) of
        None \<Rightarrow> Panic ''invalid memory address or nil pointer dereference''
      | Some implType \<Rightarrow>
        (case implType of
           Ptr (Struct name sfields) \<Rightarrow>
             (case New name sfields w of (instance, w1) \<Rightarrow>
               (case injectDependencies_syringe p instance w1 of
                  Return (Some err) w2 \<Rightarrow> Return (Inl err) w2
                | Return None w2 \<Rightarrow> Return (Inr instance) w2
                | Panic msg \<Rightarrow> Panic msg
                | Deadlock \<Rightarrow> Deadlock))
         | _ \<Rightarrow> Return (Inl (Errorf (''implementation must be a pointer to struct: '' @
                  rtype_String implType))) w))"
| "injectDependencies_syringe sp instance w =
     (case instance of
        VPtr (Struct name sfields) a \<Rightarrow> injectFields_syringe sp a sfields 0 w
      | _ \<Rightarrow> Return None w)"
| "injectFields_syringe sp a sfields i w =
     (if i < length sfields then
        (if \<not> Exported (sfields ! i) then injectFields_syringe sp a sfields (Suc i) w
         else if Kind (Type (sfields ! i)) = KInterface then
           (case GetService_syringe sp (VType (Type (sfields ! i))) w of
              Return (Inr service) w1 \<Rightarrow>
                (case typeOf service of
                   None \<Rightarrow> injectFields_syringe sp a sfields (Suc i) w1
                 | Some t \<Rightarrow>
                     if Implements w1 t (Type (sfields ! i))
                     then injectFields_syringe sp a sfields (Suc i) (Set_field a i service w1)
                     else Panic ''reflect.Set: value is not assignable to type'')
            | Return (Inl err) w1 \<Rightarrow> injectFields_syringe sp a sfields (Suc i) w1
            | Panic msg \<Rightarrow> Panic msg
            | Deadlock \<Rightarrow> Deadlock)
         else injectFields_syringe sp a sfields (Suc i) w)
      else Return None w)"
  by pat_completeness auto

text \<open>
  Termination: a call never changes whether a lock is held (\<open>frame\<close>), and under a
  held lock the nested \<^verbatim>\<open>GetService\<close> does not go on.
\<close>

definition frame :: "world \<Rightarrow> nat \<Rightarrow> nat \<times> DependencyRegistration list \<times> bool" where
  "frame w p = (root (providers w p), registrations (providers w p), mu (providers w p))"

definition keepsFrame :: "world \<Rightarrow> 'a outcome \<Rightarrow> bool" where
  "keepsFrame w out = (case out of Return r w' \<Rightarrow> frame w' = frame w | _ \<Rightarrow> True)"

lemma keepsFrame_simps [simp]:
  "keepsFrame w (Return r w') = (frame w' = frame w)"
  "keepsFrame w (Panic m) = True"
  "keepsFrame w Deadlock = True"
  by (simp_all add: keepsFrame_def)

lemma keepsFrame_trans: "keepsFrame w1 out \<Longrightarrow> frame w1 = frame w \<Longrightarrow> keepsFrame w out"
  by (cases out) simp_all

lemma frame_cacheInstance [simp]: "frame (cacheInstance p t l v w) = frame w"
  by (cases l) (auto simp: cacheInstance_def frame_def fun_eq_iff Let_def)

lemma frame_Set_field [simp]: "frame (Set_field a i v w) = frame w"
  by (auto simp: Set_field_def frame_def fun_eq_iff)

lemma frame_New [simp]: "frame (snd (New n fs w)) = frame w"
  by (auto simp: New_def frame_def fun_eq_iff)

lemma frame_pushStack [simp]: "frame (pushStack p t w) = frame w"
  by (auto simp: pushStack_def frame_def fun_eq_iff)

lemma frame_popStack [simp]: "frame (popStack p w) = frame w"
  by (auto simp: popStack_def frame_def fun_eq_iff)

lemma frame_resetStack [simp]: "frame (resetStack p w) = frame w"
  by (auto simp: resetStack_def frame_def fun_eq_iff)

lemma frame_Unlock_Lock:
  "frame w' = frame (Lock p w) \<Longrightarrow> \<not> mu (providers w p) \<Longrightarrow> frame (Unlock p w') = frame w"
  by (auto simp: Lock_def Unlock_def frame_def fun_eq_iff)

lemma frame_mu: "frame w' = frame w \<Longrightarrow> mu (providers w' p) = mu (providers w p)"
  by (auto simp: frame_def fun_eq_iff)

lemma keepsFrame_deferPop: "keepsFrame w out \<Longrightarrow> keepsFrame w (deferPop p out)"
  by (cases out) (simp_all add: deferPop_def)

lemma keepsFrame_deferUnlock:
  "keepsFrame (Lock p w) out \<Longrightarrow> \<not> mu (providers w p) \<Longrightarrow> keepsFrame w (deferUnlock p out)"
  by (cases out) (simp_all add: deferUnlock_def frame_Unlock_Lock)

lemma keepsFrame_callFactory: "keepsFrame w (callFactory p f t w)"
  by (simp add: callFactory_def split: val.split option.split)

lemma keepsFrame_cached:
  "keepsFrame w out \<Longrightarrow>
   keepsFrame w (case out of
      Return (Inl err) w2 \<Rightarrow> Return (Inl err) w2
    | Return (Inr instance) w2 \<Rightarrow> Return (Inr instance) (cacheInstance p t l instance w2)
    | Panic msg \<Rightarrow> Panic msg
    | Deadlock \<Rightarrow> Deadlock)"
  by (cases out) (simp_all split: sum.split)

lemma keepsFrame_created:
  "keepsFrame w1 out \<Longrightarrow> frame w1 = frame w \<Longrightarrow>
    keepsFrame w (case out of Return (Some err) w2 \<Rightarrow> Return (Inl err) w2
       | Return None w2 \<Rightarrow> Return (Inr inst) w2 | Panic msg \<Rightarrow> Panic msg | Deadlock \<Rightarrow> Deadlock)"
  by (cases out) (simp_all split: option.split)

lemma syringe_frame_dom:
  "GetService_syringe_resolveService_syringe_createInstance_syringe_injectDependencies_syringe_injectFields_syringe_dom (Inl (Inl (p, v, w))) \<Longrightarrow>
     keepsFrame w (GetService_syringe p v w)"
  "GetService_syringe_resolveService_syringe_createInstance_syringe_injectDependencies_syringe_injectFields_syringe_dom (Inl (Inr (p, t, w))) \<Longrightarrow>
     keepsFrame w (resolveService_syringe p t w)"
  "GetService_syringe_resolveService_syringe_createInstance_syringe_injectDependencies_syringe_injectFields_syringe_dom (Inr (Inl (p, impl, w))) \<Longrightarrow>
     keepsFrame w (createInstance_syringe p impl w)"
  "GetService_syringe_resolveService_syringe_createInstance_syringe_injectDependencies_syringe_injectFields_syringe_dom (Inr (Inr (Inl (p, inst, w)))) \<Longrightarrow>
     keepsFrame w (injectDependencies_syringe p inst w)"
  "GetService_syringe_resolveService_syringe_createInstance_syringe_injectDependencies_syringe_injectFields_syringe_dom (Inr (Inr (Inr (p, a, fs, i, w)))) \<Longrightarrow>
     keepsFrame w (injectFields_syringe p a fs i w)"
proof (induction rule: GetService_syringe_resolveService_syringe_createInstance_syringe_injectDependencies_syringe_injectFields_syringe.pinduct)
  case (1 p serviceType w)
  have *: "keepsFrame w1 out \<Longrightarrow>
      (\<And>r w2 b. out = Return r w2 \<Longrightarrow> r = Inr b \<Longrightarrow> b \<noteq> VNil \<Longrightarrow> keepsFrame w2 (inj b w2)) \<Longrightarrow>
      keepsFrame w1 (case out of
               Return (Inl err) w1 \<Rightarrow> Return (Inl err) w1
             | Return (Inr inst) w1 \<Rightarrow>
                 if inst \<noteq> VNil then
                   (case inj inst w1 of
                      Return (Some err) w2 \<Rightarrow> Return (Inl err) w2
                    | Return None w2 \<Rightarrow> Return (Inr inst) w2
                    | Panic msg \<Rightarrow> Panic msg
                    | Deadlock \<Rightarrow> Deadlock)
                 else Return (Inr inst) w1
             | Panic msg \<Rightarrow> Panic msg
             | Deadlock \<Rightarrow> Deadlock)" for w1 out and inj :: "val \<Rightarrow> world \<Rightarrow> error option outcome"
    by (cases out) (auto split: sum.split intro!: keepsFrame_created)
  show ?case
    apply (subst GetService_syringe.psimps [OF 1(1)])
    apply (auto split: option.split intro!: keepsFrame_deferUnlock)
    apply (rule keepsFrame_trans [where ?w1.0 = "resetStack p (Lock p w)"])
     apply (rule *)
      apply (rule 1(2); simp)
     apply (rule 1(3); simp)
    apply simp
    done
next
  case (2 p serviceType w)
  show ?case
  proof (cases "serviceType \<in> set (resolutionStack (providers w p))")
    case True
    then show ?thesis
      by (subst resolveService_syringe.psimps [OF 2(1)]) simp
  next
    case False
    show ?thesis
      apply (subst resolveService_syringe.psimps [OF 2(1)])
      apply (simp only: False if_False)
      apply (rule keepsFrame_deferPop)
      apply (rule keepsFrame_trans [where ?w1.0 = "pushStack p serviceType w"])
       apply (auto simp: Let_def
          intro!: keepsFrame_cached keepsFrame_callFactory 2(2) False
          split: option.split)
      done
  qed
next
  case (3 p implementation w)
  show ?case
    apply (subst createInstance_syringe.psimps [OF 3(1)])
    apply (auto split: option.split rtype.split prod.split intro!: keepsFrame_created 3(2))
    apply (metis frame_New snd_conv)
    done
next
  case (4 p inst w)
  show ?case
    apply (subst injectDependencies_syringe.psimps [OF 4(1)])
    using 4(2)
    apply (simp split: val.split rtype.split)
    done
next
  case (5 p a sfields i w)
  show ?case
    apply (subst injectFields_syringe.psimps [OF 5(1)])
    using 5(2-)
    apply (auto split: outcome.split sum.split option.split)
     apply (erule keepsFrame_trans, simp)
     apply (erule keepsFrame_trans, simp)
    apply (rule keepsFrame_trans [where ?w1.0 = "Set_field a i _ _"])
     apply blast
    apply simp
    done
qed

definition syringe_measure :: "((nat \<times> val \<times> world) + (nat \<times> rtype \<times> world)) + ((nat \<times> val \<times> world) + ((nat \<times> val \<times> world) + (nat \<times> nat \<times> StructField list \<times> nat \<times> world))) \<Rightarrow> nat \<times> nat \<times> nat" where
  "syringe_measure x =
     (case x of
        Inl (Inl (p, v, w)) \<Rightarrow> (if mu (providers w p) then 0 else 1, 0, 0)
      | Inl (Inr (p, t, w)) \<Rightarrow> (if mu (providers w p) then 0 else 1, 4, 0)
      | Inr (Inl (p, impl, w)) \<Rightarrow> (if mu (providers w p) then 0 else 1, 3, 0)
      | Inr (Inr (Inl (p, inst, w))) \<Rightarrow> (if mu (providers w p) then 0 else 1, 2, 0)
      | Inr (Inr (Inr (p, a, fs, i, w))) \<Rightarrow> (if mu (providers w p) then 0 else 1, 1, length fs - i))"

lemma syringe_measure_simps [simp]:
  "syringe_measure (Inl (Inl (p, v, w))) = (if mu (providers w p) then 0 else 1, 0, 0)"
  "syringe_measure (Inl (Inr (p, t, w))) = (if mu (providers w p) then 0 else 1, 4, 0)"
  "syringe_measure (Inr (Inl (p, impl, w))) = (if mu (providers w p) then 0 else 1, 3, 0)"
  "syringe_measure (Inr (Inr (Inl (p, inst, w)))) = (if mu (providers w p) then 0 else 1, 2, 0)"
  "syringe_measure (Inr (Inr (Inr (p, a, fs, i, w)))) = (if mu (providers w p) then 0 else 1, 1, length fs - i)"
  by (simp_all add: syringe_measure_def)

lemma mu_Lock [simp]: "mu (providers (resetStack p (Lock p w)) p)"
  by (simp add: resetStack_def Lock_def)

lemma mu_pushStack [simp]: "mu (providers (pushStack p t w) q) = mu (providers w q)"
  by (simp add: pushStack_def)

lemma mu_New: "(x, y) = New n fs w \<Longrightarrow> mu (providers y q) = mu (providers w q)"
  by (simp add: New_def)

lemma mu_Set_field [simp]: "mu (providers (Set_field a i v w) q) = mu (providers w q)"
  by (simp add: Set_field_def)

lemma syringe_mu_dom:
  assumes "GetService_syringe_resolveService_syringe_createInstance_syringe_injectDependencies_syringe_injectFields_syringe_dom (Inl (Inl (p, v, w)))"
    and "GetService_syringe p v w = Return r w'"
  shows "mu (providers w' q) = mu (providers w q)"
proof (rule frame_mu)
  show "frame w' = frame w"
    using syringe_frame_dom(1) [OF assms(1)] assms(2) by simp
qed

lemma syringe_mu_dom2:
  assumes "GetService_syringe_resolveService_syringe_createInstance_syringe_injectDependencies_syringe_injectFields_syringe_dom (Inl (Inr (p, t, w)))"
    and "resolveService_syringe p t w = Return r w'"
  shows "mu (providers w' q) = mu (providers w q)"
proof (rule frame_mu)
  show "frame w' = frame w"
    using syringe_frame_dom(2) [OF assms(1)] assms(2) by simp
qed

lemma syringe_total:
  "All GetService_syringe_resolveService_syringe_createInstance_syringe_injectDependencies_syringe_injectFields_syringe_dom"
proof (relation "inv_image (less_than <*lex*> less_than <*lex*> less_than) syringe_measure",
    goal_cases)
  case 1
  show ?case by (intro wf_inv_image wf_lex_prod wf_less_than)
next
  case (2 p serviceType w x2)
  then show ?case by simp
next
  case (3 p serviceType w x2 x11 x12 b)
  then have "mu (providers x12 p) = mu (providers (resetStack p (Lock p w)) p)"
    by (intro syringe_mu_dom2)
  with 3 show ?case by simp
next
  case (4 p serviceType w x x2)
  then show ?case by simp
next
  case (5 p implementation w x2 x3 x21 x22 x y)
  then have "mu (providers y p) = mu (providers w p)" by (intro mu_New)
  then show ?case by simp
next
  case 6
  show ?case by simp
next
  case (7 sp a sfields i w)
  then have "length sfields - Suc i < length sfields - i" by simp
  then show ?case by simp
next
  case 8
  show ?case by simp
next
  case (9 sp a sfields i w x11 x12 aa)
  then have "mu (providers x12 sp) = mu (providers w sp)" by (intro syringe_mu_dom)
  moreover from 9 have "length sfields - Suc i < length sfields - i" by simp
  ultimately show ?case by simp
next
  case (10 sp a sfields i w x11 x12 b)
  then have "mu (providers x12 sp) = mu (providers w sp)" by (intro syringe_mu_dom)
  moreover from 10 have "length sfields - Suc i < length sfields - i" by simp
  ultimately show ?case by simp
next
  case (11 sp a sfields i w x11 x12 b x2)
  then have "mu (providers x12 sp) = mu (providers w sp)" by (intro syringe_mu_dom)
  moreover from 11 have "length sfields - Suc i < length sfields - i" by simp
  ultimately show ?case by simp
next
  case (12 sp a sfields i w)
  then have "length sfields - Suc i < length sfields - i" by simp
  then show ?case by simp
qed

termination GetService_syringe
  by (rule syringe_total)

declare GetService_syringe.simps [simp del] resolveService_syringe.simps [simp del]
  createInstance_syringe.simps [simp del] injectDependencies_syringe.simps [simp del]
  injectFields_syringe.simps [simp del]

section \<open>The registration lookup\<close>


lemma findFrom_None:
  "n \<le> length regs \<Longrightarrow> (findFrom regs t n = None) = (\<forall>i<n. ServiceType (regs ! i) \<noteq> t)"
  by (induction n) (auto simp: less_Suc_eq)

section \<open>How a call leaves the world\<close>

lemma world_eqI:
  "providers w = providers w' \<Longrightarrow> nextProvider w = nextProvider w' \<Longrightarrow> memory w = memory w' \<Longrightarrow>
   allocated w = allocated w' \<Longrightarrow> Implements w = Implements w' \<Longrightarrow> w = (w' :: world)"
  by simp

lemma finish_plain:
  "\<not> mu (providers w p) \<Longrightarrow>
   Unlock p (popStack p (pushStack p t (resetStack p (Lock p w)))) = resetStack p w"
  by (rule world_eqI)
     (auto simp: Unlock_def popStack_def pushStack_def resetStack_def Lock_def fun_eq_iff)

lemma finish_cached:
  "\<not> mu (providers w p) \<Longrightarrow>
   Unlock p (popStack p (cacheInstance p t l v (pushStack p t (resetStack p (Lock p w))))) =
   cacheInstance p t l v (resetStack p w)"
  by (cases l; rule world_eqI)
     (auto simp: Unlock_def popStack_def pushStack_def resetStack_def Lock_def cacheInstance_def
       Let_def fun_eq_iff)

lemma pushStack_fields [simp]:
  "resolutionStack (providers (pushStack p t w) q) =
     (if q = p then resolutionStack (providers w p) @ [t] else resolutionStack (providers w q))"
  "root (providers (pushStack p t w) q) = root (providers w q)"
  "registrations (providers (pushStack p t w) q) = registrations (providers w q)"
  "singletonCache (providers (pushStack p t w) q) = singletonCache (providers w q)"
  "scopedCache (providers (pushStack p t w) q) = scopedCache (providers w q)"
  "mu (providers (pushStack p t w) q) = mu (providers w q)"
  "Implements (pushStack p t w) = Implements w"
  "memory (pushStack p t w) = memory w"
  "allocated (pushStack p t w) = allocated w"
  "nextProvider (pushStack p t w) = nextProvider w"
  by (simp_all add: pushStack_def)

lemma popStack_fields [simp]:
  "resolutionStack (providers (popStack p w) q) =
     (if q = p then butlast (resolutionStack (providers w p)) else resolutionStack (providers w q))"
  "root (providers (popStack p w) q) = root (providers w q)"
  "registrations (providers (popStack p w) q) = registrations (providers w q)"
  "singletonCache (providers (popStack p w) q) = singletonCache (providers w q)"
  "scopedCache (providers (popStack p w) q) = scopedCache (providers w q)"
  "mu (providers (popStack p w) q) = mu (providers w q)"
  "Implements (popStack p w) = Implements w"
  "memory (popStack p w) = memory w"
  "allocated (popStack p w) = allocated w"
  "nextProvider (popStack p w) = nextProvider w"
  by (simp_all add: popStack_def)

lemma resetStack_fields [simp]:
  "resolutionStack (providers (resetStack p w) q) =
     (if q = p then [] else resolutionStack (providers w q))"
  "root (providers (resetStack p w) q) = root (providers w q)"
  "registrations (providers (resetStack p w) q) = registrations (providers w q)"
  "singletonCache (providers (resetStack p w) q) = singletonCache (providers w q)"
  "scopedCache (providers (resetStack p w) q) = scopedCache (providers w q)"
  "mu (providers (resetStack p w) q) = mu (providers w q)"
  "Implements (resetStack p w) = Implements w"
  "memory (resetStack p w) = memory w"
  "allocated (resetStack p w) = allocated w"
  "nextProvider (resetStack p w) = nextProvider w"
  by (simp_all add: resetStack_def)

lemma Lock_fields [simp]:
  "resolutionStack (providers (Lock p w) q) = resolutionStack (providers w q)"
  "root (providers (Lock p w) q) = root (providers w q)"
  "registrations (providers (Lock p w) q) = registrations (providers w q)"
  "singletonCache (providers (Lock p w) q) = singletonCache (providers w q)"
  "scopedCache (providers (Lock p w) q) = scopedCache (providers w q)"
  "mu (providers (Lock p w) q) = (q = p \<or> mu (providers w q))"
  "Implements (Lock p w) = Implements w"
  "memory (Lock p w) = memory w"
  "allocated (Lock p w) = allocated w"
  "nextProvider (Lock p w) = nextProvider w"
  by (simp_all add: Lock_def)

lemma Unlock_fields [simp]:
  "resolutionStack (providers (Unlock p w) q) = resolutionStack (providers w q)"
  "root (providers (Unlock p w) q) = root (providers w q)"
  "registrations (providers (Unlock p w) q) = registrations (providers w q)"
  "singletonCache (providers (Unlock p w) q) = singletonCache (providers w q)"
  "scopedCache (providers (Unlock p w) q) = scopedCache (providers w q)"
  "mu (providers (Unlock p w) q) = (q \<noteq> p \<and> mu (providers w q))"
  "Implements (Unlock p w) = Implements w"
  "memory (Unlock p w) = memory w"
  "allocated (Unlock p w) = allocated w"
  "nextProvider (Unlock p w) = nextProvider w"
  by (simp_all add: Unlock_def)

lemma cacheInstance_fields [simp]:
  "resolutionStack (providers (cacheInstance p t l v w) q) = resolutionStack (providers w q)"
  "root (providers (cacheInstance p t l v w) q) = root (providers w q)"
  "registrations (providers (cacheInstance p t l v w) q) = registrations (providers w q)"
  "mu (providers (cacheInstance p t l v w) q) = mu (providers w q)"
  "Implements (cacheInstance p t l v w) = Implements w"
  "memory (cacheInstance p t l v w) = memory w"
  "allocated (cacheInstance p t l v w) = allocated w"
  "nextProvider (cacheInstance p t l v w) = nextProvider w"
  by (cases l; simp add: cacheInstance_def Let_def)+

lemma cacheInstance_caches:
  "singletonCache (providers (cacheInstance p t l v w) q) =
     (if l = Singleton \<and> q = root (providers w p)
      then (singletonCache (providers w q))(t \<mapsto> v) else singletonCache (providers w q))"
  "scopedCache (providers (cacheInstance p t l v w) q) =
     (if l = Scoped \<and> q = p
      then (scopedCache (providers w q))(t \<mapsto> v) else scopedCache (providers w q))"
  by (cases l; simp add: cacheInstance_def Let_def)+

lemma New_fields [simp]:
  "fst (New n fs w) = VPtr (Struct n fs) (allocated w)"
  "providers (snd (New n fs w)) = providers w"
  "Implements (snd (New n fs w)) = Implements w"
  "nextProvider (snd (New n fs w)) = nextProvider w"
  "allocated (snd (New n fs w)) = Suc (allocated w)"
  "memory (snd (New n fs w)) = (memory w)(allocated w := map (\<lambda>f. zeroValue (Type f)) fs)"
  by (simp_all add: New_def)

lemma Set_field_fields [simp]:
  "providers (Set_field a i v w) = providers w"
  "Implements (Set_field a i v w) = Implements w"
  "nextProvider (Set_field a i v w) = nextProvider w"
  "allocated (Set_field a i v w) = allocated w"
  "memory (Set_field a i v w) = (memory w)(a := (memory w a)[i := v])"
  by (simp_all add: Set_field_def)

subsection \<open>The public entry point and a cache miss, unfolded once\<close>

lemma GetService_main_unfold:
  "typeObj v = Some t \<Longrightarrow> \<not> mu (providers w p) \<Longrightarrow>
   GetService_main p v w = deferUnlock p (resolveService_main p t (resetStack p (Lock p w)))"
  by (simp add: GetService_main_def)

lemma GetService_syringe_unfold:
  "typeObj v = Some t \<Longrightarrow> \<not> mu (providers w p) \<Longrightarrow>
   GetService_syringe p v w = deferUnlock p
     (case resolveService_syringe p t (resetStack p (Lock p w)) of
        Return (Inl err) w1 \<Rightarrow> Return (Inl err) w1
      | Return (Inr inst) w1 \<Rightarrow>
          if inst \<noteq> VNil then
            (case injectDependencies_syringe p inst w1 of
               Return (Some err) w2 \<Rightarrow> Return (Inl err) w2
             | Return None w2 \<Rightarrow> Return (Inr inst) w2
             | Panic msg \<Rightarrow> Panic msg
             | Deadlock \<Rightarrow> Deadlock)
          else Return (Inr inst) w1
      | Panic msg \<Rightarrow> Panic msg
      | Deadlock \<Rightarrow> Deadlock)"
  by (simp add: GetService_syringe.simps)

lemma GetService_syringe_locked:
  "mu (providers w p) \<Longrightarrow> typeObj v = Some t \<Longrightarrow> GetService_syringe p v w = Deadlock"
  by (simp add: GetService_syringe.simps)

text \<open>Under a held lock the injection of package syringe either has nothing to inject or
  blocks at the first settable field of interface type.\<close>

definition injectable :: "StructField \<Rightarrow> bool" where
  "injectable f = (Exported f \<and> Kind (Type f) = KInterface)"

lemma injectFields_syringe_locked:
  "mu (providers w p) \<Longrightarrow>
   injectFields_syringe p a fs i w =
     (if list_ex injectable (drop i fs) then Deadlock else Return None w)"
proof (induction "length fs - i" arbitrary: i)
  case 0
  then show ?case by (subst injectFields_syringe.simps) simp
next
  case (Suc n)
  then have i: "i < length fs" and n: "n = length fs - Suc i" by simp_all
  have d: "drop i fs = fs ! i # drop (Suc i) fs"
    using i by (simp add: Cons_nth_drop_Suc)
  show ?case
    apply (subst injectFields_syringe.simps)
    using Suc(1) [OF n Suc(3)] i Suc(3)
    apply (simp add: d injectable_def GetService_syringe_locked typeObj_def)
    done
qed

lemma injectDependencies_syringe_locked:
  "mu (providers w p) \<Longrightarrow>
   injectDependencies_syringe p inst w =
     (case inst of
        VPtr (Struct name fs) a \<Rightarrow> if list_ex injectable fs then Deadlock else Return None w
      | _ \<Rightarrow> Return None w)"
  by (subst injectDependencies_syringe.simps)
     (simp add: injectFields_syringe_locked split: val.split rtype.split)

subsection \<open>A cache miss\<close>

lemma resolveService_main_miss:
  assumes "t \<notin> set (resolutionStack (providers w p))"
    and "singletonCache (providers w (root (providers w p))) t = None"
    and "scopedCache (providers w p) t = None"
  shows "resolveService_main p t w =
    deferPop p
      (case findRegistration (registrations (providers w p)) t of
         None \<Rightarrow> Return (Inl (Errorf_w (Error ErrServiceNotFound @ '': '' @ rtype_String t)
                   ErrServiceNotFound)) (pushStack p t w)
       | Some registration \<Rightarrow>
           if Instance registration \<noteq> VNil then
             Return (Inr (Instance registration))
               (cacheInstance p t (Lifetime registration) (Instance registration) (pushStack p t w))
           else if Factory registration \<noteq> VNil then
             (case callFactory p (Factory registration) t (pushStack p t w) of
                Return (Inl err) w2 \<Rightarrow> Return (Inl err) w2
              | Return (Inr inst) w2 \<Rightarrow>
                  Return (Inr inst) (cacheInstance p t (Lifetime registration) inst w2)
              | Panic msg \<Rightarrow> Panic msg
              | Deadlock \<Rightarrow> Deadlock)
           else if Implementation registration \<noteq> VNil then
             (case createInstance_main p (Implementation registration) (pushStack p t w) of
                Return (Inl err) w2 \<Rightarrow> Return (Inl err) w2
              | Return (Inr inst) w2 \<Rightarrow>
                  Return (Inr inst) (cacheInstance p t (Lifetime registration) inst w2)
              | Panic msg \<Rightarrow> Panic msg
              | Deadlock \<Rightarrow> Deadlock)
           else Return (Inl (Errorf_w (Error ErrInvalidServiceType @
                  '': no implementation for '' @ rtype_String t) ErrInvalidServiceType))
                  (pushStack p t w))"
  using assms by (subst resolveService_main.simps) (simp add: Let_def)

lemma resolveService_syringe_miss:
  assumes "t \<notin> set (resolutionStack (providers w p))"
    and "singletonCache (providers w (root (providers w p))) t = None"
    and "scopedCache (providers w p) t = None"
  shows "resolveService_syringe p t w =
    deferPop p
      (case findRegistration (registrations (providers w p)) t of
         None \<Rightarrow> Return (Inl (Errorf_w (Error ErrServiceNotFound @ '': '' @ rtype_String t)
                   ErrServiceNotFound)) (pushStack p t w)
       | Some registration \<Rightarrow>
           if Instance registration \<noteq> VNil then
             Return (Inr (Instance registration))
               (cacheInstance p t (Lifetime registration) (Instance registration) (pushStack p t w))
           else if Factory registration \<noteq> VNil then
             (case callFactory p (Factory registration) t (pushStack p t w) of
                Return (Inl err) w2 \<Rightarrow> Return (Inl err) w2
              | Return (Inr inst) w2 \<Rightarrow>
                  Return (Inr inst) (cacheInstance p t (Lifetime registration) inst w2)
              | Panic msg \<Rightarrow> Panic msg
              | Deadlock \<Rightarrow> Deadlock)
           else if Implementation registration \<noteq> VNil then
             (case createInstance_syringe p (Implementation registration) (pushStack p t w) of
                Return (Inl err) w2 \<Rightarrow> Return (Inl err) w2
              | Return (Inr inst) w2 \<Rightarrow>
                  Return (Inr inst) (cacheInstance p t (Lifetime registration) inst w2)
              | Panic msg \<Rightarrow> Panic msg
              | Deadlock \<Rightarrow> Deadlock)
           else Return (Inl (Errorf_w (Error ErrInvalidServiceType @
                  '': no implementation for '' @ rtype_String t) ErrInvalidServiceType))
                  (pushStack p t w))"
  using assms by (subst resolveService_syringe.simps) (simp add: Let_def)

text \<open>The implementation type \<^verbatim>\<open>createInstance\<close> looks at.\<close>

definition implType :: "val \<Rightarrow> rtype option" where
  "implType implementation =
     (case implementation of VType t \<Rightarrow> Some t | _ \<Rightarrow> typeOf implementation)"

fun isPtrToStruct :: "rtype \<Rightarrow> bool" where
  "isPtrToStruct (Ptr (Struct name sfields)) = True"
| "isPtrToStruct t = False"

lemma createInstance_main_not_struct:
  "implType impl = Some t \<Longrightarrow> \<not> isPtrToStruct t \<Longrightarrow>
   createInstance_main p impl w =
     Return (Inl (Errorf (''implementation must be a pointer to struct: '' @ rtype_String t))) w"
  by (subst createInstance_main.simps, cases t rule: isPtrToStruct.cases)
     (simp_all add: implType_def split: rtype.split)

lemma createInstance_syringe_not_struct:
  "implType impl = Some t \<Longrightarrow> \<not> isPtrToStruct t \<Longrightarrow>
   createInstance_syringe p impl w =
     Return (Inl (Errorf (''implementation must be a pointer to struct: '' @ rtype_String t))) w"
  by (subst createInstance_syringe.simps, cases t rule: isPtrToStruct.cases)
     (simp_all add: implType_def split: rtype.split)

lemma implType_Some: "impl \<noteq> VNil \<Longrightarrow> \<exists>t. implType impl = Some t"
  by (cases impl) (simp_all add: implType_def)

section \<open>Worlds the public operations build\<close>

text \<open>
  What a strategy must be like for \<^verbatim>\<open>resolveService\<close> to reach its cache write: a
  pre-built instance, a factory of the right shape that reports no error, or a
  blueprint that is a pointer to a struct.
\<close>

definition factoryConforms :: "(rtype \<Rightarrow> rtype \<Rightarrow> bool) \<Rightarrow> val \<Rightarrow> bool" where
  "factoryConforms I factory =
     (case factory of
        VFunc ins outs results \<Rightarrow>
          length ins = 1 \<and> ins ! 0 = providerType \<and> length outs = 2 \<and> I (outs ! 1) errorType
      | _ \<Rightarrow> False)"

definition factoryError :: "val \<Rightarrow> error option" where
  "factoryError factory = (case factory of VFunc ins outs results \<Rightarrow> snd results | _ \<Rightarrow> None)"

definition produces :: "(rtype \<Rightarrow> rtype \<Rightarrow> bool) \<Rightarrow> DependencyRegistration \<Rightarrow> bool" where
  "produces I reg =
     (Instance reg \<noteq> VNil \<or>
      (Factory reg \<noteq> VNil \<and> factoryConforms I (Factory reg) \<and> factoryError (Factory reg) = None) \<or>
      (Factory reg = VNil \<and> Implementation reg \<noteq> VNil \<and>
       (case implType (Implementation reg) of Some t \<Rightarrow> isPtrToStruct t | None \<Rightarrow> False)))"

text \<open>
  A world is consistent when every provider's root is a provider with the same
  registrations, and every cached contract has a registration that produces. A world
  without providers is consistent, and the public operations keep a world consistent
  (proved below), so every world a program reaches through them is.
\<close>

definition consistent :: "world \<Rightarrow> bool" where
  "consistent w =
     (\<forall>p<nextProvider w.
        root (providers w p) < nextProvider w \<and>
        registrations (providers w (root (providers w p))) = registrations (providers w p) \<and>
        (\<forall>t. t \<in> dom (singletonCache (providers w p)) \<union> dom (scopedCache (providers w p)) \<longrightarrow>
           (\<exists>reg. findRegistration (registrations (providers w p)) t = Some reg \<and>
              produces (Implements w) reg)))"

lemma consistent_miss:
  assumes "consistent w" "p < nextProvider w"
    and "\<forall>reg. findRegistration (registrations (providers w p)) t = Some reg \<longrightarrow>
           \<not> produces (Implements w) reg"
  shows "singletonCache (providers w (root (providers w p))) t = None"
    and "scopedCache (providers w p) t = None"
proof -
  let ?r = "root (providers w p)"
  from assms(1,2) have r: "?r < nextProvider w"
    and regs: "registrations (providers w ?r) = registrations (providers w p)"
    by (auto simp: consistent_def)
  show "singletonCache (providers w ?r) t = None"
  proof (rule ccontr)
    assume "singletonCache (providers w ?r) t \<noteq> None"
    then have "t \<in> dom (singletonCache (providers w ?r)) \<union> dom (scopedCache (providers w ?r))"
      by auto
    with assms(1) r obtain reg where "findRegistration (registrations (providers w ?r)) t = Some reg"
      "produces (Implements w) reg"
      unfolding consistent_def by blast
    with assms(3) regs show False by simp
  qed
  show "scopedCache (providers w p) t = None"
  proof (rule ccontr)
    assume "scopedCache (providers w p) t \<noteq> None"
    then have "t \<in> dom (singletonCache (providers w p)) \<union> dom (scopedCache (providers w p))"
      by auto
    with assms(1,2) obtain reg where "findRegistration (registrations (providers w p)) t = Some reg"
      "produces (Implements w) reg"
      unfolding consistent_def by blast
    with assms(3) show False by simp
  qed
qed

lemma not_produces_miss:
  assumes "consistent w" "p < nextProvider w"
    and "findRegistration (registrations (providers w p)) t = Some reg"
    and "\<not> produces (Implements w) reg"
  shows "singletonCache (providers w (root (providers w p))) t = None"
    and "scopedCache (providers w p) t = None"
  using consistent_miss [OF assms(1,2), of t] assms(3,4) by simp_all

lemma unregistered_miss:
  assumes "consistent w" "p < nextProvider w"
    and "findRegistration (registrations (providers w p)) t = None"
  shows "singletonCache (providers w (root (providers w p))) t = None"
    and "scopedCache (providers w p) t = None"
  using consistent_miss [OF assms(1,2), of t] assms(3) by simp_all

lemma pop_push [simp]: "popStack p (pushStack p t w) = w"
  by (rule world_eqI) (auto simp: popStack_def pushStack_def fun_eq_iff)

lemma cacheInstance_pushStack:
  "cacheInstance p t l v (pushStack q u w) = pushStack q u (cacheInstance p t l v w)"
  by (cases l; rule world_eqI) (auto simp: cacheInstance_def pushStack_def Let_def fun_eq_iff)

lemma deferPop_push [simp]:
  "deferPop p (Return r (pushStack p t w)) = Return r w"
  "deferPop p (Return r (cacheInstance p t l v (pushStack p t w))) = Return r (cacheInstance p t l v w)"
  by (simp_all add: deferPop_def cacheInstance_pushStack)

lemma Unlock_entry [simp]:
  "\<not> mu (providers w p) \<Longrightarrow> Unlock p (resetStack p (Lock p w)) = resetStack p w"
  by (rule world_eqI) (auto simp: Unlock_def resetStack_def Lock_def fun_eq_iff)

lemma cacheInstance_entry:
  "cacheInstance p t l v (resetStack q (Lock q w)) = resetStack q (Lock q (cacheInstance p t l v w))"
  by (cases l; rule world_eqI) (auto simp: cacheInstance_def resetStack_def Lock_def Let_def fun_eq_iff)

lemma cacheInstance_resetStack:
  "cacheInstance p t l v (resetStack q w) = resetStack q (cacheInstance p t l v w)"
  by (cases l; rule world_eqI) (auto simp: cacheInstance_def resetStack_def Let_def fun_eq_iff)

lemma GetService_main_result:
  assumes "typeObj v = Some t" "\<not> mu (providers w p)"
    and "resolveService_main p t (resetStack p (Lock p w)) = Return r w1"
  shows "GetService_main p v w = Return r (Unlock p w1)"
  using assms by (simp add: GetService_main_unfold deferUnlock_def)

lemma GetService_syringe_error:
  assumes "typeObj v = Some t" "\<not> mu (providers w p)"
    and "resolveService_syringe p t (resetStack p (Lock p w)) = Return (Inl e) w1"
  shows "GetService_syringe p v w = Return (Inl e) (Unlock p w1)"
  using assms by (simp add: GetService_syringe_unfold deferUnlock_def)

text \<open>The failures of a cache miss that nothing nested is involved in.\<close>

definition missFailure :: "(rtype \<Rightarrow> rtype \<Rightarrow> bool) \<Rightarrow> DependencyRegistration option \<Rightarrow> rtype \<Rightarrow> error option" where
  "missFailure I found t =
     (case found of
        None \<Rightarrow> Some (Errorf_w (''service not found: '' @ rtype_String t) ErrServiceNotFound)
      | Some reg \<Rightarrow>
          if Instance reg \<noteq> VNil then None
          else if Factory reg \<noteq> VNil then
            (case Factory reg of
               VFunc ins outs results \<Rightarrow>
                 if factoryConforms I (Factory reg) then snd results
                 else Some (Errorf (''invalid factory function for '' @ rtype_String t))
             | _ \<Rightarrow> None)
          else if Implementation reg \<noteq> VNil then
            (case implType (Implementation reg) of
               Some it \<Rightarrow> if isPtrToStruct it then None
                  else Some (Errorf (''implementation must be a pointer to struct: '' @ rtype_String it))
             | None \<Rightarrow> None)
          else Some (Errorf_w (''invalid service type: no implementation for '' @ rtype_String t)
                 ErrInvalidServiceType))"

lemma callFactory_conforms:
  "factoryConforms (Implements w) (VFunc ins outs results) \<Longrightarrow>
   callFactory p (VFunc ins outs results) t w =
     (case snd results of Some err \<Rightarrow> Return (Inl err) w | None \<Rightarrow> Return (Inr (fst results)) w)"
  by (simp add: callFactory_def factoryConforms_def)

lemma callFactory_not_conforms:
  "\<not> factoryConforms (Implements w) (VFunc ins outs results) \<Longrightarrow>
   callFactory p (VFunc ins outs results) t w =
     Return (Inl (Errorf (''invalid factory function for '' @ rtype_String t))) w"
  by (auto simp add: callFactory_def factoryConforms_def)

lemma factoryConforms_pushStack [simp]:
  "factoryConforms (Implements (pushStack p t w)) f = factoryConforms (Implements w) f"
  by simp

lemma resolveService_main_failure:
  assumes "t \<notin> set (resolutionStack (providers w p))"
    and "singletonCache (providers w (root (providers w p))) t = None"
    and "scopedCache (providers w p) t = None"
    and "missFailure (Implements w) (findRegistration (registrations (providers w p)) t) t = Some e"
  shows "resolveService_main p t w = Return (Inl e) w"
proof (cases "findRegistration (registrations (providers w p)) t")
  case None
  with assms show ?thesis
    by (simp add: resolveService_main_miss missFailure_def)
next
  case (Some reg)
  consider (inst) "Instance reg \<noteq> VNil"
    | (fact) "Instance reg = VNil" "Factory reg \<noteq> VNil"
    | (impl) "Instance reg = VNil" "Factory reg = VNil" "Implementation reg \<noteq> VNil"
    | (none) "Instance reg = VNil" "Factory reg = VNil" "Implementation reg = VNil"
    by blast
  then show ?thesis
  proof cases
    case inst
    with assms(4) Some show ?thesis by (simp add: missFailure_def)
  next
    case fact
    with assms(4) Some obtain ins outs results where f: "Factory reg = VFunc ins outs results"
      by (cases "Factory reg") (simp_all add: missFailure_def)
    show ?thesis
    proof (cases "factoryConforms (Implements w) (Factory reg)")
      case True
      with assms Some fact f show ?thesis
        by (simp add: resolveService_main_miss missFailure_def callFactory_conforms)
    next
      case False
      with assms Some fact f show ?thesis
        by (simp add: resolveService_main_miss missFailure_def callFactory_not_conforms)
    qed
  next
    case impl
    with assms(4) Some obtain it where it: "implType (Implementation reg) = Some it"
      "\<not> isPtrToStruct it"
      "e = Errorf (''implementation must be a pointer to struct: '' @ rtype_String it)"
      by (auto simp: missFailure_def split: option.splits if_splits)
    with assms Some impl show ?thesis
      by (simp add: resolveService_main_miss createInstance_main_not_struct)
  next
    case none
    with assms Some show ?thesis
      by (simp add: resolveService_main_miss missFailure_def)
  qed
qed

lemma resolveService_syringe_failure:
  assumes "t \<notin> set (resolutionStack (providers w p))"
    and "singletonCache (providers w (root (providers w p))) t = None"
    and "scopedCache (providers w p) t = None"
    and "missFailure (Implements w) (findRegistration (registrations (providers w p)) t) t = Some e"
  shows "resolveService_syringe p t w = Return (Inl e) w"
proof (cases "findRegistration (registrations (providers w p)) t")
  case None
  with assms show ?thesis
    by (simp add: resolveService_syringe_miss missFailure_def)
next
  case (Some reg)
  consider (inst) "Instance reg \<noteq> VNil"
    | (fact) "Instance reg = VNil" "Factory reg \<noteq> VNil"
    | (impl) "Instance reg = VNil" "Factory reg = VNil" "Implementation reg \<noteq> VNil"
    | (none) "Instance reg = VNil" "Factory reg = VNil" "Implementation reg = VNil"
    by blast
  then show ?thesis
  proof cases
    case inst
    with assms(4) Some show ?thesis by (simp add: missFailure_def)
  next
    case fact
    with assms(4) Some obtain ins outs results where f: "Factory reg = VFunc ins outs results"
      by (cases "Factory reg") (simp_all add: missFailure_def)
    show ?thesis
    proof (cases "factoryConforms (Implements w) (Factory reg)")
      case True
      with assms Some fact f show ?thesis
        by (simp add: resolveService_syringe_miss missFailure_def callFactory_conforms)
    next
      case False
      with assms Some fact f show ?thesis
        by (simp add: resolveService_syringe_miss missFailure_def callFactory_not_conforms)
    qed
  next
    case impl
    with assms(4) Some obtain it where it: "implType (Implementation reg) = Some it"
      "\<not> isPtrToStruct it"
      "e = Errorf (''implementation must be a pointer to struct: '' @ rtype_String it)"
      by (auto simp: missFailure_def split: option.splits if_splits)
    with assms Some impl show ?thesis
      by (simp add: resolveService_syringe_miss createInstance_syringe_not_struct)
  next
    case none
    with assms Some show ?thesis
      by (simp add: resolveService_syringe_miss missFailure_def)
  qed
qed

lemma missFailure_produces:
  "missFailure (Implements w) (Some reg) t = Some e \<Longrightarrow> \<not> produces (Implements w) reg"
  by (auto simp: missFailure_def produces_def factoryError_def
      split: if_splits val.splits option.splits)

lemma GetService_failure:
  assumes "consistent w" and "p < nextProvider w" and "\<not> mu (providers w p)"
    and "typeObj v = Some t"
    and "missFailure (Implements w) (findRegistration (registrations (providers w p)) t) t = Some e"
  shows "GetService_main p v w = Return (Inl e) (resetStack p w)"
    and "GetService_syringe p v w = Return (Inl e) (resetStack p w)"
proof -
  let ?w0 = "resetStack p (Lock p w)"
  have "\<forall>reg. findRegistration (registrations (providers w p)) t = Some reg \<longrightarrow>
      \<not> produces (Implements w) reg"
    using assms(5) by (auto dest: missFailure_produces)
  note miss = consistent_miss [OF assms(1,2) this]
  have mf: "missFailure (Implements ?w0) (findRegistration (registrations (providers ?w0 p)) t) t = Some e"
    using assms(5) by (simp add: missFailure_def)
  have "resolveService_main p t ?w0 = Return (Inl e) ?w0"
    by (rule resolveService_main_failure) (use miss mf in simp_all)
  from GetService_main_result [OF assms(4,3) this] assms(3)
  show "GetService_main p v w = Return (Inl e) (resetStack p w)" by simp
  have "resolveService_syringe p t ?w0 = Return (Inl e) ?w0"
    by (rule resolveService_syringe_failure) (use miss mf in simp_all)
  from GetService_syringe_error [OF assms(4,3) this] assms(3)
  show "GetService_syringe p v w = Return (Inl e) (resetStack p w)" by simp
qed

text \<open>The world before any provider is built.\<close>

definition startWorld :: "(rtype \<Rightarrow> rtype \<Rightarrow> bool) \<Rightarrow> world" where
  "startWorld I =
     \<lparr>providers = (\<lambda>p. \<lparr>root = p, registrations = [], singletonCache = Map.empty,
         scopedCache = Map.empty, resolutionStack = [], mu = False\<rparr>),
      nextProvider = 0, memory = (\<lambda>a. []), allocated = 0, Implements = I\<rparr>"

lemma consistent_start: "consistent (startWorld I)"
  by (simp add: consistent_def startWorld_def)

lemma consistent_Build:
  assumes "consistent w"
  shows "consistent (snd (BuildServiceProvider s w))"
  unfolding consistent_def
proof (intro allI impI)
  fix p
  let ?w' = "snd (BuildServiceProvider s w)"
  assume "p < nextProvider ?w'"
  then have p: "p < nextProvider w \<or> p = nextProvider w"
    by (auto simp: BuildServiceProvider_def Let_def)
  show "root (providers ?w' p) < nextProvider ?w' \<and>
        registrations (providers ?w' (root (providers ?w' p))) = registrations (providers ?w' p) \<and>
        (\<forall>t. t \<in> dom (singletonCache (providers ?w' p)) \<union> dom (scopedCache (providers ?w' p)) \<longrightarrow>
           (\<exists>reg. findRegistration (registrations (providers ?w' p)) t = Some reg \<and>
              produces (Implements ?w') reg))"
  proof (cases "p = nextProvider w")
    case True
    then show ?thesis by (simp add: BuildServiceProvider_def Let_def)
  next
    case False
    with p have lt: "p < nextProvider w" by simp
    with assms have r: "root (providers w p) < nextProvider w"
      and regs: "registrations (providers w (root (providers w p))) = registrations (providers w p)"
      and c: "\<forall>t. t \<in> dom (singletonCache (providers w p)) \<union> dom (scopedCache (providers w p)) \<longrightarrow>
           (\<exists>reg. findRegistration (registrations (providers w p)) t = Some reg \<and>
              produces (Implements w) reg)"
      by (auto simp: consistent_def)
    from lt r regs c show ?thesis
      by (simp add: BuildServiceProvider_def Let_def)
  qed
qed

lemma consistent_CreateScope:
  assumes "consistent w" and "p < nextProvider w"
  shows "consistent (snd (CreateScope p w))"
  unfolding consistent_def
proof (intro allI impI)
  fix q
  let ?w' = "snd (CreateScope p w)"
  let ?r = "root (providers w p)"
  from assms have rp: "?r < nextProvider w"
    and regsp: "registrations (providers w ?r) = registrations (providers w p)"
    by (auto simp: consistent_def)
  from assms(1) rp
  have cp: "\<forall>t. t \<in> dom (singletonCache (providers w ?r)) \<union> dom (scopedCache (providers w ?r)) \<longrightarrow>
           (\<exists>reg. findRegistration (registrations (providers w ?r)) t = Some reg \<and>
              produces (Implements w) reg)"
    unfolding consistent_def by blast
  assume "q < nextProvider ?w'"
  then have q: "q < nextProvider w \<or> q = nextProvider w"
    by (auto simp: CreateScope_def Let_def)
  show "root (providers ?w' q) < nextProvider ?w' \<and>
        registrations (providers ?w' (root (providers ?w' q))) = registrations (providers ?w' q) \<and>
        (\<forall>t. t \<in> dom (singletonCache (providers ?w' q)) \<union> dom (scopedCache (providers ?w' q)) \<longrightarrow>
           (\<exists>reg. findRegistration (registrations (providers ?w' q)) t = Some reg \<and>
              produces (Implements ?w') reg))"
  proof (cases "q = nextProvider w")
    case True
    with rp regsp cp show ?thesis
      by (auto simp: CreateScope_def Let_def)
  next
    case False
    with q have lt: "q < nextProvider w" by simp
    with assms(1) have r: "root (providers w q) < nextProvider w"
      and regs: "registrations (providers w (root (providers w q))) = registrations (providers w q)"
      and c: "\<forall>t. t \<in> dom (singletonCache (providers w q)) \<union> dom (scopedCache (providers w q)) \<longrightarrow>
           (\<exists>reg. findRegistration (registrations (providers w q)) t = Some reg \<and>
              produces (Implements w) reg)"
      by (auto simp: consistent_def)
    from lt r regs c show ?thesis
      by (simp add: CreateScope_def Let_def)
  qed
qed

text \<open>
  Claim C8. In a consistent world, on a provider whose lock is free, \<^verbatim>\<open>GetService\<close> of a
  contract with no registration returns an error that wraps \<^verbatim>\<open>ErrServiceNotFound\<close>, and
  \<^verbatim>\<open>GetService\<close> of a contract whose registration has no instance, no factory and no
  implementation returns an error that wraps \<^verbatim>\<open>ErrInvalidServiceType\<close>; in both packages,
  and the call leaves the world as it was but for the emptied resolution stack.
\<close>

theorem unregistered_and_empty_registrations_fail:
  assumes "consistent w" and "p < nextProvider w" and "\<not> mu (providers w p)"
    and "typeObj v = Some t"
  shows "(findRegistration (registrations (providers w p)) t = None \<longrightarrow>
            GetService_syringe p v w =
              Return (Inl (Errorf_w (''service not found: '' @ rtype_String t) ErrServiceNotFound))
                (resetStack p w) \<and>
            GetService_main p v w =
              Return (Inl (Errorf_w (''service not found: '' @ rtype_String t) ErrServiceNotFound))
                (resetStack p w)) \<and>
         (\<forall>reg. findRegistration (registrations (providers w p)) t = Some reg \<and>
            Instance reg = VNil \<and> Factory reg = VNil \<and> Implementation reg = VNil \<longrightarrow>
            GetService_syringe p v w =
              Return (Inl (Errorf_w (''invalid service type: no implementation for '' @ rtype_String t)
                ErrInvalidServiceType)) (resetStack p w) \<and>
            GetService_main p v w =
              Return (Inl (Errorf_w (''invalid service type: no implementation for '' @ rtype_String t)
                ErrInvalidServiceType)) (resetStack p w))"
proof (intro conjI allI impI)
  assume "findRegistration (registrations (providers w p)) t = None"
  then have mf: "missFailure (Implements w) (findRegistration (registrations (providers w p)) t) t =
    Some (Errorf_w (''service not found: '' @ rtype_String t) ErrServiceNotFound)"
    by (simp add: missFailure_def)
  from GetService_failure [OF assms mf]
  show "GetService_syringe p v w =
      Return (Inl (Errorf_w (''service not found: '' @ rtype_String t) ErrServiceNotFound))
        (resetStack p w)"
    "GetService_main p v w =
      Return (Inl (Errorf_w (''service not found: '' @ rtype_String t) ErrServiceNotFound))
        (resetStack p w)" by simp_all
next
  fix reg
  assume "findRegistration (registrations (providers w p)) t = Some reg \<and>
            Instance reg = VNil \<and> Factory reg = VNil \<and> Implementation reg = VNil"
  then have mf: "missFailure (Implements w) (findRegistration (registrations (providers w p)) t) t =
    Some (Errorf_w (''invalid service type: no implementation for '' @ rtype_String t)
                ErrInvalidServiceType)"
    by (simp add: missFailure_def)
  from GetService_failure [OF assms mf]
  show "GetService_syringe p v w =
      Return (Inl (Errorf_w (''invalid service type: no implementation for '' @ rtype_String t)
        ErrInvalidServiceType)) (resetStack p w)"
    "GetService_main p v w =
      Return (Inl (Errorf_w (''invalid service type: no implementation for '' @ rtype_String t)
        ErrInvalidServiceType)) (resetStack p w)" by simp_all
qed

text \<open>An example program: its method sets, and a registration with no strategy.\<close>

definition exampleImplements :: "rtype \<Rightarrow> rtype \<Rightarrow> bool" where
  "exampleImplements t i =
     ((t, i) \<in> set [(Interface ''error'', Interface ''error''),
        (Ptr (Struct ''Console'' []), Interface ''Logger'')])"

definition emptyRegistration :: DependencyRegistration where
  "emptyRegistration =
     \<lparr>ServiceType = Interface ''Logger'', Implementation = VNil, Factory = VNil,
      Instance = VNil, Lifetime = Singleton\<rparr>"

theorem unregistered_and_empty_registrations_fail_witness:
  "GetService_syringe 0 (VZero (Ptr (Interface ''Clock'')))
     (snd (BuildServiceProvider \<lparr>c_registrations = [emptyRegistration]\<rparr> (startWorld exampleImplements))) =
   Return (Inl (Errorf_w ''service not found: Clock'' ErrServiceNotFound))
     (resetStack 0 (snd (BuildServiceProvider \<lparr>c_registrations = [emptyRegistration]\<rparr> (startWorld exampleImplements)))) \<and>
   GetService_main 0 (VZero (Ptr (Interface ''Logger'')))
     (snd (BuildServiceProvider \<lparr>c_registrations = [emptyRegistration]\<rparr> (startWorld exampleImplements))) =
   Return (Inl (Errorf_w ''invalid service type: no implementation for Logger'' ErrInvalidServiceType))
     (resetStack 0 (snd (BuildServiceProvider \<lparr>c_registrations = [emptyRegistration]\<rparr> (startWorld exampleImplements))))"
proof -
  let ?w = "snd (BuildServiceProvider \<lparr>c_registrations = [emptyRegistration]\<rparr> (startWorld exampleImplements))"
  have c: "consistent ?w" by (intro consistent_Build consistent_start)
  have p: "0 < nextProvider ?w" and m: "\<not> mu (providers ?w 0)"
    and regs: "registrations (providers ?w 0) = [emptyRegistration]"
    by (simp_all add: BuildServiceProvider_def startWorld_def Let_def)
  have t1: "typeObj (VZero (Ptr (Interface ''Clock''))) = Some (Interface ''Clock'')"
    and t2: "typeObj (VZero (Ptr (Interface ''Logger''))) = Some (Interface ''Logger'')"
    by (simp_all add: typeObj_def)
  have f1: "findRegistration (registrations (providers ?w 0)) (Interface ''Clock'') = None"
    and f2: "findRegistration (registrations (providers ?w 0)) (Interface ''Logger'') =
      Some emptyRegistration"
    unfolding regs by (simp_all add: findRegistration_def emptyRegistration_def)
  have e: "Instance emptyRegistration = VNil" "Factory emptyRegistration = VNil"
    "Implementation emptyRegistration = VNil"
    by (simp_all add: emptyRegistration_def)
  show ?thesis
    using unregistered_and_empty_registrations_fail [OF c p m t1]
      unregistered_and_empty_registrations_fail [OF c p m t2] f1 f2 e
    by simp
qed



text \<open>
  Claim C10. In a consistent world, \<^verbatim>\<open>GetService\<close> of a contract registered with a
  blueprint whose type is not a pointer to a struct returns an error (it does not
  panic), in both packages, and no cache of any provider is changed.
\<close>

theorem blueprint_not_pointer_to_struct_fails:
  assumes "consistent w" and "p < nextProvider w" and "\<not> mu (providers w p)"
    and "typeObj v = Some t"
    and "findRegistration (registrations (providers w p)) t = Some reg"
    and "Instance reg = VNil" and "Factory reg = VNil" and "Implementation reg \<noteq> VNil"
    and "implType (Implementation reg) = Some it" and "\<not> isPtrToStruct it"
  shows "GetService_syringe p v w =
           Return (Inl (Errorf (''implementation must be a pointer to struct: '' @ rtype_String it)))
             (resetStack p w) \<and>
         GetService_main p v w =
           Return (Inl (Errorf (''implementation must be a pointer to struct: '' @ rtype_String it)))
             (resetStack p w) \<and>
         (\<forall>q. singletonCache (providers (resetStack p w) q) = singletonCache (providers w q) \<and>
              scopedCache (providers (resetStack p w) q) = scopedCache (providers w q))"
proof -
  have "missFailure (Implements w) (findRegistration (registrations (providers w p)) t) t =
    Some (Errorf (''implementation must be a pointer to struct: '' @ rtype_String it))"
    using assms(5-) by (simp add: missFailure_def)
  from GetService_failure [OF assms(1-4) this] show ?thesis by simp
qed

definition structValueRegistration :: DependencyRegistration where
  "structValueRegistration =
     \<lparr>ServiceType = Interface ''Logger'', Implementation = VZero (Struct ''Console'' []),
      Factory = VNil, Instance = VNil, Lifetime = Singleton\<rparr>"

theorem blueprint_not_pointer_to_struct_fails_witness:
  "GetService_syringe 0 (VZero (Ptr (Interface ''Logger'')))
     (snd (BuildServiceProvider \<lparr>c_registrations = [structValueRegistration]\<rparr>
        (startWorld exampleImplements))) =
   Return (Inl (Errorf ''implementation must be a pointer to struct: Console''))
     (resetStack 0 (snd (BuildServiceProvider \<lparr>c_registrations = [structValueRegistration]\<rparr>
        (startWorld exampleImplements)))) \<and>
   GetService_main 0 (VZero (Ptr (Interface ''Logger'')))
     (snd (BuildServiceProvider \<lparr>c_registrations = [structValueRegistration]\<rparr>
        (startWorld exampleImplements))) =
   Return (Inl (Errorf ''implementation must be a pointer to struct: Console''))
     (resetStack 0 (snd (BuildServiceProvider \<lparr>c_registrations = [structValueRegistration]\<rparr>
        (startWorld exampleImplements))))"
proof -
  let ?w = "snd (BuildServiceProvider \<lparr>c_registrations = [structValueRegistration]\<rparr>
        (startWorld exampleImplements))"
  have c: "consistent ?w" by (intro consistent_Build consistent_start)
  have p: "0 < nextProvider ?w" and m: "\<not> mu (providers ?w 0)"
    and regs: "registrations (providers ?w 0) = [structValueRegistration]"
    by (simp_all add: BuildServiceProvider_def startWorld_def Let_def)
  have t: "typeObj (VZero (Ptr (Interface ''Logger''))) = Some (Interface ''Logger'')"
    by (simp add: typeObj_def)
  have f: "findRegistration (registrations (providers ?w 0)) (Interface ''Logger'') =
      Some structValueRegistration"
    unfolding regs by (simp add: findRegistration_def structValueRegistration_def)
  have e: "Instance structValueRegistration = VNil" "Factory structValueRegistration = VNil"
    "Implementation structValueRegistration \<noteq> VNil"
    "implType (Implementation structValueRegistration) = Some (Struct ''Console'' [])"
    "\<not> isPtrToStruct (Struct ''Console'' [])"
    by (simp_all add: structValueRegistration_def implType_def)
  show ?thesis
    using blueprint_not_pointer_to_struct_fails [OF c p m t f e]
    by simp
qed







text \<open>
  Claim C7, as the code has it. A factory that is a function but not of the required
  shape (one parameter of the provider's type, two results, the second implementing
  \<^verbatim>\<open>error\<close>) makes \<^verbatim>\<open>GetService\<close> fail with the error
  \<^verbatim>\<open>invalid factory function for T\<close>, which is not \<^verbatim>\<open>ErrInvalidServiceType\<close> and does not
  wrap it.
\<close>

theorem factory_of_wrong_shape_fails:
  assumes "consistent w" and "p < nextProvider w" and "\<not> mu (providers w p)"
    and "typeObj v = Some t"
    and "findRegistration (registrations (providers w p)) t = Some reg"
    and "Instance reg = VNil" and "Factory reg = VFunc ins outs results"
    and "\<not> (length ins = 1 \<and> ins ! 0 = providerType \<and> length outs = 2 \<and>
         Implements w (outs ! 1) errorType)"
  shows "GetService_syringe p v w =
           Return (Inl (Errorf (''invalid factory function for '' @ rtype_String t))) (resetStack p w) \<and>
         GetService_main p v w =
           Return (Inl (Errorf (''invalid factory function for '' @ rtype_String t))) (resetStack p w) \<and>
         \<not> Is (Errorf (''invalid factory function for '' @ rtype_String t)) ErrInvalidServiceType"
proof -
  have "\<not> factoryConforms (Implements w) (Factory reg)"
    using assms(7,8) by (simp add: factoryConforms_def)
  then have "missFailure (Implements w) (findRegistration (registrations (providers w p)) t) t =
      Some (Errorf (''invalid factory function for '' @ rtype_String t))"
    using assms(5-7) by (simp add: missFailure_def)
  from GetService_failure [OF assms(1-4) this] show ?thesis by simp
qed

definition noParameterFactoryRegistration :: DependencyRegistration where
  "noParameterFactoryRegistration =
     \<lparr>ServiceType = Interface ''Logger'', Implementation = VNil,
      Factory = VFunc [] [Interface ''Logger'', Interface ''error'']
        (VZero (Ptr (Struct ''Console'' [])), None),
      Instance = VNil, Lifetime = Singleton\<rparr>"

theorem factory_of_wrong_shape_fails_witness:
  "GetService_syringe 0 (VZero (Ptr (Interface ''Logger'')))
     (snd (BuildServiceProvider \<lparr>c_registrations = [noParameterFactoryRegistration]\<rparr>
        (startWorld exampleImplements))) =
   Return (Inl (Errorf ''invalid factory function for Logger''))
     (resetStack 0 (snd (BuildServiceProvider \<lparr>c_registrations = [noParameterFactoryRegistration]\<rparr>
        (startWorld exampleImplements)))) \<and>
   GetService_main 0 (VZero (Ptr (Interface ''Logger'')))
     (snd (BuildServiceProvider \<lparr>c_registrations = [noParameterFactoryRegistration]\<rparr>
        (startWorld exampleImplements))) =
   Return (Inl (Errorf ''invalid factory function for Logger''))
     (resetStack 0 (snd (BuildServiceProvider \<lparr>c_registrations = [noParameterFactoryRegistration]\<rparr>
        (startWorld exampleImplements)))) \<and>
   \<not> Is (Errorf ''invalid factory function for Logger'') ErrInvalidServiceType"
proof -
  let ?w = "snd (BuildServiceProvider \<lparr>c_registrations = [noParameterFactoryRegistration]\<rparr>
        (startWorld exampleImplements))"
  have c: "consistent ?w" by (intro consistent_Build consistent_start)
  have p: "0 < nextProvider ?w" and m: "\<not> mu (providers ?w 0)"
    and regs: "registrations (providers ?w 0) = [noParameterFactoryRegistration]"
    by (simp_all add: BuildServiceProvider_def startWorld_def Let_def)
  have t: "typeObj (VZero (Ptr (Interface ''Logger''))) = Some (Interface ''Logger'')"
    by (simp add: typeObj_def)
  have f: "findRegistration (registrations (providers ?w 0)) (Interface ''Logger'') =
      Some noParameterFactoryRegistration"
    unfolding regs by (simp add: findRegistration_def noParameterFactoryRegistration_def)
  have e: "Instance noParameterFactoryRegistration = VNil"
    "Factory noParameterFactoryRegistration = VFunc [] [Interface ''Logger'', Interface ''error'']
        (VZero (Ptr (Struct ''Console'' [])), None)"
    "\<not> (length ([] :: rtype list) = 1 \<and> [] ! 0 = providerType \<and>
        length [Interface ''Logger'', Interface ''error''] = 2 \<and>
        Implements ?w ([Interface ''Logger'', Interface ''error''] ! 1) errorType)"
    by (simp_all add: noParameterFactoryRegistration_def)
  show ?thesis
    using factory_of_wrong_shape_fails [OF c p m t f e]
    by simp
qed

text \<open>
  The claim as stated fails: a factory for \<open>Clock\<close> with three results is refused with
  an error that \<^verbatim>\<open>errors.Is\<close> does not relate to \<^verbatim>\<open>ErrInvalidServiceType\<close>.
\<close>

definition threeResultFactoryRegistration :: DependencyRegistration where
  "threeResultFactoryRegistration =
     \<lparr>ServiceType = Interface ''Clock'', Implementation = VNil,
      Factory = VFunc [providerType] [Interface ''Clock'', Basic ''bool'', Interface ''error'']
        (VNil, None),
      Instance = VNil, Lifetime = Transient\<rparr>"

theorem factory_of_wrong_shape_counterexample:
  "GetService_syringe 0 (VType (Interface ''Clock''))
     (snd (BuildServiceProvider \<lparr>c_registrations = [threeResultFactoryRegistration]\<rparr>
        (startWorld exampleImplements))) =
   Return (Inl (Errorf ''invalid factory function for Clock''))
     (resetStack 0 (snd (BuildServiceProvider \<lparr>c_registrations = [threeResultFactoryRegistration]\<rparr>
        (startWorld exampleImplements)))) \<and>
   GetService_main 0 (VType (Interface ''Clock''))
     (snd (BuildServiceProvider \<lparr>c_registrations = [threeResultFactoryRegistration]\<rparr>
        (startWorld exampleImplements))) =
   Return (Inl (Errorf ''invalid factory function for Clock''))
     (resetStack 0 (snd (BuildServiceProvider \<lparr>c_registrations = [threeResultFactoryRegistration]\<rparr>
        (startWorld exampleImplements)))) \<and>
   \<not> Is (Errorf ''invalid factory function for Clock'') ErrInvalidServiceType \<and>
   Errorf ''invalid factory function for Clock'' \<noteq> ErrInvalidServiceType"
proof -
  let ?w = "snd (BuildServiceProvider \<lparr>c_registrations = [threeResultFactoryRegistration]\<rparr>
        (startWorld exampleImplements))"
  have c: "consistent ?w" by (intro consistent_Build consistent_start)
  have p: "0 < nextProvider ?w" and m: "\<not> mu (providers ?w 0)"
    and regs: "registrations (providers ?w 0) = [threeResultFactoryRegistration]"
    and I: "Implements ?w = exampleImplements"
    by (simp_all add: BuildServiceProvider_def startWorld_def Let_def)
  have t: "typeObj (VType (Interface ''Clock'')) = Some (Interface ''Clock'')"
    by (simp add: typeObj_def)
  have "missFailure (Implements ?w) (findRegistration (registrations (providers ?w 0))
      (Interface ''Clock'')) (Interface ''Clock'') =
      Some (Errorf ''invalid factory function for Clock'')"
    unfolding regs I
    by (simp add: findRegistration_def threeResultFactoryRegistration_def missFailure_def
        factoryConforms_def)
  from GetService_failure [OF c p m t this] show ?thesis by simp
qed

section \<open>Cache hits and pre-built instances\<close>

lemma resolveService_main_hit:
  assumes "t \<notin> set (resolutionStack (providers w p))"
    and "singletonCache (providers w (root (providers w p))) t = Some inst \<or>
         singletonCache (providers w (root (providers w p))) t = None \<and>
         scopedCache (providers w p) t = Some inst"
  shows "resolveService_main p t w = Return (Inr inst) w"
  using assms by (subst resolveService_main.simps) (auto simp: Let_def)

lemma resolveService_syringe_hit:
  assumes "t \<notin> set (resolutionStack (providers w p))"
    and "singletonCache (providers w (root (providers w p))) t = Some inst \<or>
         singletonCache (providers w (root (providers w p))) t = None \<and>
         scopedCache (providers w p) t = Some inst"
  shows "resolveService_syringe p t w = Return (Inr inst) w"
  using assms by (subst resolveService_syringe.simps) (auto simp: Let_def)

text \<open>Whether \<^verbatim>\<open>injectDependencies\<close> of package syringe finds a field to inject in a value.\<close>

definition needsInjection :: "val \<Rightarrow> bool" where
  "needsInjection inst =
     (case inst of VPtr (Struct name sfields) a \<Rightarrow> list_ex injectable sfields | _ \<Rightarrow> False)"

lemma injectDependencies_syringe_needs:
  "mu (providers w p) \<Longrightarrow>
   injectDependencies_syringe p inst w = (if needsInjection inst then Deadlock else Return None w)"
  by (simp add: injectDependencies_syringe_locked needsInjection_def split: val.split rtype.split)

lemma GetService_syringe_result:
  assumes "typeObj v = Some t" "\<not> mu (providers w p)"
    and "resolveService_syringe p t (resetStack p (Lock p w)) = Return (Inr inst) w1"
    and "mu (providers w1 p)"
  shows "GetService_syringe p v w =
    (if needsInjection inst then Deadlock else Return (Inr inst) (Unlock p w1))"
  using assms
  by (auto simp add: GetService_syringe_unfold deferUnlock_def injectDependencies_syringe_needs
      needsInjection_def)

text \<open>
  A cache hit. Package main returns the cached instance and changes nothing but the
  resolution stack, which it empties. Package syringe hands the cached instance to
  \<^verbatim>\<open>injectDependencies\<close>: it returns the instance unchanged when there is nothing to
  inject, and blocks on its own lock otherwise.
\<close>

lemma GetService_main_cached:
  assumes "typeObj v = Some t" and "\<not> mu (providers w p)"
    and "singletonCache (providers w (root (providers w p))) t = Some inst \<or>
         singletonCache (providers w (root (providers w p))) t = None \<and>
         scopedCache (providers w p) t = Some inst"
  shows "GetService_main p v w = Return (Inr inst) (resetStack p w)"
proof -
  have "resolveService_main p t (resetStack p (Lock p w)) = Return (Inr inst) (resetStack p (Lock p w))"
    by (rule resolveService_main_hit) (use assms(3) in simp_all)
  from GetService_main_result [OF assms(1,2) this] assms(2) show ?thesis by simp
qed

lemma GetService_syringe_cached:
  assumes "typeObj v = Some t" and "\<not> mu (providers w p)"
    and "singletonCache (providers w (root (providers w p))) t = Some inst \<or>
         singletonCache (providers w (root (providers w p))) t = None \<and>
         scopedCache (providers w p) t = Some inst"
  shows "GetService_syringe p v w =
    (if needsInjection inst then Deadlock else Return (Inr inst) (resetStack p w))"
proof -
  have "resolveService_syringe p t (resetStack p (Lock p w)) = Return (Inr inst) (resetStack p (Lock p w))"
    by (rule resolveService_syringe_hit) (use assms(3) in simp_all)
  from GetService_syringe_result [OF assms(1,2) this] assms(2) show ?thesis by simp
qed

lemma Unlock_entry_cached [simp]:
  "\<not> mu (providers w p) \<Longrightarrow>
   Unlock p (cacheInstance p t l v (resetStack p (Lock p w))) = cacheInstance p t l v (resetStack p w)"
  by (cases l; rule world_eqI)
     (auto simp: Unlock_def resetStack_def Lock_def cacheInstance_def Let_def fun_eq_iff)

text \<open>A pre-built instance, on a cache miss.\<close>

lemma GetService_main_instance:
  assumes "typeObj v = Some t" and "\<not> mu (providers w p)"
    and "singletonCache (providers w (root (providers w p))) t = None"
    and "scopedCache (providers w p) t = None"
    and "findRegistration (registrations (providers w p)) t = Some reg"
    and "Instance reg \<noteq> VNil"
  shows "GetService_main p v w =
    Return (Inr (Instance reg)) (cacheInstance p t (Lifetime reg) (Instance reg) (resetStack p w))"
proof -
  have "resolveService_main p t (resetStack p (Lock p w)) =
    Return (Inr (Instance reg)) (cacheInstance p t (Lifetime reg) (Instance reg) (resetStack p (Lock p w)))"
    using assms(3-) by (simp add: resolveService_main_miss)
  from GetService_main_result [OF assms(1,2) this] assms(2) show ?thesis
    by simp
qed

lemma GetService_syringe_instance:
  assumes "typeObj v = Some t" and "\<not> mu (providers w p)"
    and "singletonCache (providers w (root (providers w p))) t = None"
    and "scopedCache (providers w p) t = None"
    and "findRegistration (registrations (providers w p)) t = Some reg"
    and "Instance reg \<noteq> VNil"
  shows "GetService_syringe p v w =
    (if needsInjection (Instance reg) then Deadlock
     else Return (Inr (Instance reg))
       (cacheInstance p t (Lifetime reg) (Instance reg) (resetStack p w)))"
proof -
  have "resolveService_syringe p t (resetStack p (Lock p w)) =
    Return (Inr (Instance reg)) (cacheInstance p t (Lifetime reg) (Instance reg) (resetStack p (Lock p w)))"
    using assms(3-) by (simp add: resolveService_syringe_miss)
  from GetService_syringe_result [OF assms(1,2) this] assms(2) show ?thesis
    by simp
qed

text \<open>
  An example for both claims: a struct \<^verbatim>\<open>Service\<close> with the exported field \<^verbatim>\<open>Log\<close> of
  interface type \<^verbatim>\<open>Logger\<close>, an object of it made by the program at address 0, and a
  provider built from the one registration \<^verbatim>\<open>AddSingletonInstance((*IService)(nil), &svc)\<close>.
\<close>

definition serviceStruct :: rtype where
  "serviceStruct = Struct ''Service'' [StructField ''Log'' True (Interface ''Logger'')]"

definition prebuiltRegistration :: DependencyRegistration where
  "prebuiltRegistration =
     \<lparr>ServiceType = Interface ''IService'', Implementation = VNil, Factory = VNil,
      Instance = VPtr serviceStruct 0, Lifetime = Singleton\<rparr>"

definition prebuiltWorld :: world where
  "prebuiltWorld =
     snd (BuildServiceProvider \<lparr>c_registrations = [prebuiltRegistration]\<rparr>
       ((startWorld exampleImplements)\<lparr>memory := (\<lambda>a. [])(0 := [VNil]), allocated := 1\<rparr>))"

lemma prebuiltWorld_fields:
  "\<not> mu (providers prebuiltWorld 0)"
  "root (providers prebuiltWorld 0) = 0"
  "registrations (providers prebuiltWorld 0) = [prebuiltRegistration]"
  "singletonCache (providers prebuiltWorld 0) = Map.empty"
  "scopedCache (providers prebuiltWorld 0) = Map.empty"
  by (simp_all add: prebuiltWorld_def BuildServiceProvider_def startWorld_def Let_def)

lemma needsInjection_service: "needsInjection (VPtr serviceStruct 0)"
  by (simp add: needsInjection_def serviceStruct_def injectable_def)

text \<open>
  Claim C5 fails in package syringe. \<^verbatim>\<open>GetService\<close> of the contract registered with the
  pre-built instance passes the instance to \<^verbatim>\<open>injectDependencies\<close>, which calls
  \<^verbatim>\<open>GetService\<close> for the field \<^verbatim>\<open>Log\<close> while the provider's lock is held: the call never
  returns. Package main returns the instance as it is.
\<close>

theorem prebuilt_instance_blocks_in_syringe:
  "GetService_syringe 0 (VType (Interface ''IService'')) prebuiltWorld = Deadlock \<and>
   GetService_main 0 (VType (Interface ''IService'')) prebuiltWorld =
     Return (Inr (VPtr serviceStruct 0))
       (cacheInstance 0 (Interface ''IService'') Singleton (VPtr serviceStruct 0)
          (resetStack 0 prebuiltWorld))"
proof -
  have t: "typeObj (VType (Interface ''IService'')) = Some (Interface ''IService'')"
    by (simp add: typeObj_def)
  have f: "findRegistration (registrations (providers prebuiltWorld 0)) (Interface ''IService'') =
      Some prebuiltRegistration"
    by (simp add: prebuiltWorld_fields findRegistration_def prebuiltRegistration_def)
  have i: "Instance prebuiltRegistration = VPtr serviceStruct 0"
    "Lifetime prebuiltRegistration = Singleton"
    by (simp_all add: prebuiltRegistration_def)
  have m: "singletonCache (providers prebuiltWorld (root (providers prebuiltWorld 0)))
      (Interface ''IService'') = None"
    "scopedCache (providers prebuiltWorld 0) (Interface ''IService'') = None"
    by (simp_all add: prebuiltWorld_fields)
  show ?thesis
    using GetService_syringe_instance [OF t prebuiltWorld_fields(1) m f]
      GetService_main_instance [OF t prebuiltWorld_fields(1) m f]
    by (simp add: i needsInjection_service)
qed

text \<open>
  Claim C1 fails in package syringe. With the instance in the root's singleton cache,
  \<^verbatim>\<open>GetService\<close> passes the cached instance to \<^verbatim>\<open>injectDependencies\<close> again and blocks
  in the same way. Package main returns the cached instance and leaves the memory
  and the caches as they are.
\<close>

definition cachedWorld :: world where
  "cachedWorld =
     cacheInstance 0 (Interface ''IService'') Singleton (VPtr serviceStruct 0) prebuiltWorld"

theorem cached_instance_blocks_in_syringe:
  "singletonCache (providers cachedWorld (root (providers cachedWorld 0))) (Interface ''IService'') =
     Some (VPtr serviceStruct 0) \<and>
   GetService_syringe 0 (VType (Interface ''IService'')) cachedWorld = Deadlock \<and>
   GetService_main 0 (VType (Interface ''IService'')) cachedWorld =
     Return (Inr (VPtr serviceStruct 0)) (resetStack 0 cachedWorld)"
proof -
  have t: "typeObj (VType (Interface ''IService'')) = Some (Interface ''IService'')"
    by (simp add: typeObj_def)
  have m: "\<not> mu (providers cachedWorld 0)"
    by (simp add: cachedWorld_def prebuiltWorld_fields)
  have c: "singletonCache (providers cachedWorld (root (providers cachedWorld 0)))
      (Interface ''IService'') = Some (VPtr serviceStruct 0)"
    by (simp add: cachedWorld_def cacheInstance_caches prebuiltWorld_fields)
  then have c': "singletonCache (providers cachedWorld (root (providers cachedWorld 0)))
      (Interface ''IService'') = Some (VPtr serviceStruct 0) \<or>
      singletonCache (providers cachedWorld (root (providers cachedWorld 0)))
      (Interface ''IService'') = None \<and>
      scopedCache (providers cachedWorld 0) (Interface ''IService'') = Some (VPtr serviceStruct 0)"
    by simp
  show ?thesis
    using GetService_syringe_cached [OF t m c'] GetService_main_cached [OF t m c'] c
    by (simp add: needsInjection_service)
qed

section \<open>What a resolution of package main changes\<close>

lemmas main_dom = main_total [THEN spec]

lemma skeleton_fields:
  assumes "skeleton w' = skeleton w"
  shows "root (providers w' q) = root (providers w q)"
    and "registrations (providers w' q) = registrations (providers w q)"
    and "resolutionStack (providers w' q) = resolutionStack (providers w q)"
    and "mu (providers w' q) = mu (providers w q)"
  using assms by (auto simp: skeleton_def fun_eq_iff)

lemma consistent_pushStack [simp]: "consistent (pushStack p t w) = consistent w"
  by (simp add: consistent_def)

lemma consistent_popStack [simp]: "consistent (popStack p w) = consistent w"
  by (simp add: consistent_def)

lemma consistent_resetStack [simp]: "consistent (resetStack p w) = consistent w"
  by (simp add: consistent_def)

lemma consistent_Lock [simp]: "consistent (Lock p w) = consistent w"
  by (simp add: consistent_def)

lemma consistent_Unlock [simp]: "consistent (Unlock p w) = consistent w"
  by (simp add: consistent_def)

lemma consistent_New [simp]: "consistent (snd (New n fs w)) = consistent w"
  by (simp add: consistent_def)

lemma consistent_Set_field [simp]: "consistent (Set_field a i v w) = consistent w"
  by (simp add: consistent_def)

lemma consistentD:
  assumes "consistent w" and "p < nextProvider w"
  shows "root (providers w p) < nextProvider w"
    and "registrations (providers w (root (providers w p))) = registrations (providers w p)"
    and "u \<in> dom (singletonCache (providers w p)) \<union> dom (scopedCache (providers w p)) \<Longrightarrow>
           \<exists>reg. findRegistration (registrations (providers w p)) u = Some reg \<and>
              produces (Implements w) reg"
  using assms unfolding consistent_def by blast+

lemma consistent_cacheInstance:
  assumes "consistent w" and "p < nextProvider w"
    and "findRegistration (registrations (providers w p)) t = Some reg"
    and "produces (Implements w) reg"
  shows "consistent (cacheInstance p t l v w)"
  unfolding consistent_def
proof (intro allI impI)
  fix q
  let ?r = "root (providers w p)"
  assume "q < nextProvider (cacheInstance p t l v w)"
  then have q: "q < nextProvider w" by simp
  note regs = consistentD(2) [OF assms(1,2)]
  note r = consistentD(1) [OF assms(1) q]
  note rq = consistentD(2) [OF assms(1) q]
  note c = consistentD(3) [OF assms(1) q]
  have "\<exists>reg. findRegistration (registrations (providers w q)) u = Some reg \<and>
              produces (Implements w) reg"
    if "u \<in> dom (singletonCache (providers (cacheInstance p t l v w) q)) \<union>
            dom (scopedCache (providers (cacheInstance p t l v w) q))" for u
  proof (cases "u \<in> dom (singletonCache (providers w q)) \<union> dom (scopedCache (providers w q))")
    case True
    then show ?thesis by (rule c)
  next
    case False
    with that have "u = t \<and> (q = ?r \<or> q = p)"
      by (auto simp: cacheInstance_caches split: if_splits)
    with assms(3,4) regs show ?thesis by auto
  qed
  with r rq show "root (providers (cacheInstance p t l v w) q) < nextProvider (cacheInstance p t l v w) \<and>
        registrations (providers (cacheInstance p t l v w) (root (providers (cacheInstance p t l v w) q))) =
          registrations (providers (cacheInstance p t l v w) q) \<and>
        (\<forall>u. u \<in> dom (singletonCache (providers (cacheInstance p t l v w) q)) \<union>
               dom (scopedCache (providers (cacheInstance p t l v w) q)) \<longrightarrow>
           (\<exists>reg. findRegistration (registrations (providers (cacheInstance p t l v w) q)) u = Some reg \<and>
              produces (Implements (cacheInstance p t l v w)) reg))"
    by simp
qed

text \<open>
  \<open>resolves p w w'\<close>: what the steps of a resolution on provider \<open>p\<close> may change between
  \<open>w\<close> and \<open>w'\<close>. Roots, registrations, stacks and locks stay; objects are only added;
  the scoped caches of other providers and the singleton caches of providers other
  than the root stay; for a contract on the resolution stack no cache entry of it
  changes; and a consistent world stays consistent.
\<close>

definition resolves :: "nat \<Rightarrow> world \<Rightarrow> world \<Rightarrow> bool" where
  "resolves p w w' =
     (skeleton w' = skeleton w \<and> Implements w' = Implements w \<and>
      nextProvider w' = nextProvider w \<and> allocated w \<le> allocated w' \<and>
      (\<forall>q. q \<noteq> p \<longrightarrow> scopedCache (providers w' q) = scopedCache (providers w q)) \<and>
      (\<forall>q. q \<noteq> root (providers w p) \<longrightarrow>
         singletonCache (providers w' q) = singletonCache (providers w q)) \<and>
      (\<forall>u\<in>set (resolutionStack (providers w p)).
         scopedCache (providers w' p) u = scopedCache (providers w p) u \<and>
         singletonCache (providers w' (root (providers w p))) u =
           singletonCache (providers w (root (providers w p))) u) \<and>
      (consistent w \<and> p < nextProvider w \<longrightarrow> consistent w'))"

lemma resolves_refl [simp]: "resolves p w w"
  by (simp add: resolves_def)

lemma resolves_trans:
  assumes "resolves p w w1" and "resolves p w1 w2"
  shows "resolves p w w2"
proof -
  from assms(1) have sk: "skeleton w1 = skeleton w" by (simp add: resolves_def)
  note f = skeleton_fields [OF sk]
  from assms show ?thesis
    unfolding resolves_def f by (auto simp: f)
qed

lemma resolves_New [simp]: "resolves p w (snd (New n fs w))"
  by (simp add: resolves_def)

lemma resolves_Set_field [simp]: "resolves p w (Set_field a i v w)"
  by (simp add: resolves_def)

lemma resolves_pop:
  assumes "resolves p (pushStack p t w) w2"
  shows "resolves p w (popStack p w2)"
proof -
  from assms have sk: "skeleton w2 = skeleton (pushStack p t w)" by (simp add: resolves_def)
  have sk': "skeleton (popStack p w2) = skeleton w" by (rule skeleton_pop_push [OF sk])
  from assms sk' show ?thesis
    by (auto simp: resolves_def)
qed

lemma resolves_pop_cached:
  assumes "resolves p (pushStack p t w) w2"
    and "t \<notin> set (resolutionStack (providers w p))"
    and "findRegistration (registrations (providers w p)) t = Some reg"
    and "produces (Implements w) reg"
  shows "resolves p w (popStack p (cacheInstance p t l v w2))"
proof -
  from assms(1) have sk: "skeleton w2 = skeleton (pushStack p t w)" by (simp add: resolves_def)
  note f = skeleton_fields [OF sk]
  have sk': "skeleton (popStack p (cacheInstance p t l v w2)) = skeleton w"
    by (rule skeleton_pop_push) (simp add: sk)
  have c: "consistent (cacheInstance p t l v w2)" if "consistent w" "p < nextProvider w"
  proof (rule consistent_cacheInstance)
    from assms(1) that show "consistent w2" "p < nextProvider w2" by (simp_all add: resolves_def)
    from assms(3) show "findRegistration (registrations (providers w2 p)) t = Some reg"
      by (simp add: f)
    from assms(1,4) show "produces (Implements w2) reg" by (simp add: resolves_def)
  qed
  from assms(1,2) sk' c show ?thesis
    by (auto simp: resolves_def cacheInstance_caches f)
qed

lemma resolves_cacheInstance:
  assumes "t \<notin> set (resolutionStack (providers w p))"
    and "findRegistration (registrations (providers w p)) t = Some reg"
    and "produces (Implements w) reg"
  shows "resolves p w (cacheInstance p t l v w)"
  using resolves_pop_cached [OF resolves_refl assms, of l v]
  by (simp add: cacheInstance_pushStack)

definition keepsMemory :: "world \<Rightarrow> world \<Rightarrow> bool" where
  "keepsMemory w w' = (\<forall>b<allocated w. memory w' b = memory w b)"

text \<open>
  \<open>injectsInto a sfields i w w'\<close>: of the objects of \<open>w\<close> only the one at \<open>a\<close> may differ
  in \<open>w'\<close>, and only in fields from index \<open>i\<close> on that are exported and of interface
  type.
\<close>

definition injectsInto :: "nat \<Rightarrow> StructField list \<Rightarrow> nat \<Rightarrow> world \<Rightarrow> world \<Rightarrow> bool" where
  "injectsInto a sfields i w w' =
     ((\<forall>b<allocated w. b \<noteq> a \<longrightarrow> memory w' b = memory w b) \<and>
      length (memory w' a) = length (memory w a) \<and>
      (\<forall>j. j < i \<or> \<not> (j < length sfields \<and> injectable (sfields ! j)) \<longrightarrow>
         memory w' a ! j = memory w a ! j))"

lemma keepsMemory_refl [simp]: "keepsMemory w w"
  by (simp add: keepsMemory_def)

lemma keepsMemory_trans:
  "keepsMemory w w1 \<Longrightarrow> keepsMemory w1 w2 \<Longrightarrow> allocated w \<le> allocated w1 \<Longrightarrow> keepsMemory w w2"
  by (simp add: keepsMemory_def)

lemma keepsMemory_simps [simp]:
  "keepsMemory w (popStack p w') = keepsMemory w w'"
  "keepsMemory w (cacheInstance p t l v w') = keepsMemory w w'"
  "keepsMemory (pushStack p t w) w' = keepsMemory w w'"
  "keepsMemory w (snd (New n fs w))"
  by (simp_all add: keepsMemory_def)

lemma injectsInto_refl [simp]: "injectsInto a fs i w w"
  by (simp add: injectsInto_def)

lemma injectsInto_keeps:
  "injectsInto a fs i w w' \<Longrightarrow> allocated w \<le> a \<Longrightarrow> keepsMemory w w'"
  by (auto simp: injectsInto_def keepsMemory_def)

lemma injectsInto_skip:
  "injectsInto a fs (Suc i) w w' \<Longrightarrow> \<not> (i < length fs \<and> injectable (fs ! i)) \<Longrightarrow> injectsInto a fs i w w'"
  by (auto simp: injectsInto_def)

lemma injectsInto_after:
  assumes "keepsMemory w w1" and "a < allocated w" and "allocated w \<le> allocated w1"
    and "injectsInto a fs (Suc i) w1 w'"
  shows "injectsInto a fs i w w'"
  using assms by (auto simp: injectsInto_def keepsMemory_def)

lemma injectsInto_after_Set:
  assumes "keepsMemory w w1" and "a < allocated w" and "allocated w \<le> allocated w1"
    and "i < length fs" and "injectable (fs ! i)"
    and "injectsInto a fs (Suc i) (Set_field a i v w1) w'"
  shows "injectsInto a fs i w w'"
proof -
  from assms(6) have 1: "\<forall>b<allocated w1. b \<noteq> a \<longrightarrow> memory w' b = memory w1 b"
    and 2: "length (memory w' a) = length (memory w1 a)"
    and 3: "\<forall>j. j < Suc i \<or> \<not> (j < length fs \<and> injectable (fs ! j)) \<longrightarrow>
         memory w' a ! j = (memory w1 a)[i := v] ! j"
    by (simp_all add: injectsInto_def)
  from assms(1,2) have 4: "\<forall>b<allocated w. memory w1 b = memory w b"
    by (simp add: keepsMemory_def)
  have "memory w' a ! j = memory w a ! j"
    if "j < i \<or> \<not> (j < length fs \<and> injectable (fs ! j))" for j
  proof -
    from that assms(4,5) have ne: "j \<noteq> i" by auto
    from that have "memory w' a ! j = (memory w1 a)[i := v] ! j" using 3 by auto
    also have "\<dots> = memory w1 a ! j" using ne by simp
    also have "\<dots> = memory w a ! j" using 4 assms(2) by simp
    finally show ?thesis .
  qed
  with 1 2 4 assms(2,3) show ?thesis
    by (auto simp: injectsInto_def)
qed

text \<open>\<open>ensures Q out\<close>: the call returned and \<open>Q\<close> holds of its result, or it panicked; it
  did not block.\<close>

definition ensures :: "('a \<Rightarrow> world \<Rightarrow> bool) \<Rightarrow> 'a outcome \<Rightarrow> bool" where
  "ensures Q out = (case out of Return r w' \<Rightarrow> Q r w' | Panic msg \<Rightarrow> True | Deadlock \<Rightarrow> False)"

lemma ensures_simps [simp]:
  "ensures Q (Return r w') = Q r w'"
  "ensures Q (Panic msg) = True"
  "ensures Q Deadlock = False"
  by (simp_all add: ensures_def)

lemma ensures_mono: "ensures Q out \<Longrightarrow> (\<And>r w'. out = Return r w' \<Longrightarrow> Q r w' \<Longrightarrow> Q' r w') \<Longrightarrow> ensures Q' out"
  by (cases out) simp_all

lemma ensures_deferPop:
  "ensures (\<lambda>r w2. Q r (popStack p w2)) out \<Longrightarrow> ensures Q (deferPop p out)"
  by (cases out) (simp_all add: deferPop_def)

lemma callFactory_Inr:
  "callFactory p f t w = Return (Inr v) w' \<Longrightarrow>
   w' = w \<and> factoryConforms (Implements w) f \<and> factoryError f = None \<and> f \<noteq> VNil"
  by (auto simp: callFactory_def factoryConforms_def factoryError_def
      split: val.splits if_splits option.splits)

lemma callFactory_Inl: "callFactory p f t w = Return (Inl e) w' \<Longrightarrow> w' = w"
  by (auto simp: callFactory_def split: val.splits if_splits option.splits)

lemma callFactory_no_Deadlock: "callFactory p f t w \<noteq> Deadlock"
  by (auto simp: callFactory_def split: val.splits if_splits option.splits)

lemma createInstance_main_Inr:
  "createInstance_main p impl w = Return (Inr v) w' \<Longrightarrow>
   \<exists>it. implType impl = Some it \<and> isPtrToStruct it"
  by (subst (asm) createInstance_main.simps)
     (auto simp: implType_def split: option.splits rtype.splits prod.splits outcome.splits)

lemma createInstance_main_struct:
  "implType impl = Some (Ptr (Struct n fs)) \<Longrightarrow>
   createInstance_main p impl w =
     (case injectDependencies_main p (VPtr (Struct n fs) (allocated w)) (snd (New n fs w)) of
        Return (Some err) w2 \<Rightarrow> Return (Inl err) w2
      | Return None w2 \<Rightarrow> Return (Inr (VPtr (Struct n fs) (allocated w))) w2
      | Panic msg \<Rightarrow> Panic msg
      | Deadlock \<Rightarrow> Deadlock)"
  by (subst createInstance_main.simps) (simp add: implType_def New_def)

lemma createInstance_syringe_struct:
  "implType impl = Some (Ptr (Struct n fs)) \<Longrightarrow>
   createInstance_syringe p impl w =
     (case injectDependencies_syringe p (VPtr (Struct n fs) (allocated w)) (snd (New n fs w)) of
        Return (Some err) w2 \<Rightarrow> Return (Inl err) w2
      | Return None w2 \<Rightarrow> Return (Inr (VPtr (Struct n fs) (allocated w))) w2
      | Panic msg \<Rightarrow> Panic msg
      | Deadlock \<Rightarrow> Deadlock)"
  by (subst createInstance_syringe.simps) (simp add: implType_def New_def)

lemma ensures_dispatch:
  assumes "ensures (\<lambda>r w2. resolves p (pushStack p t w) w2 \<and> keepsMemory w w2) out"
    and "\<And>v w2. out = Return (Inr v) w2 \<Longrightarrow> produces (Implements w) reg"
    and "t \<notin> set (resolutionStack (providers w p))"
    and "findRegistration (registrations (providers w p)) t = Some reg"
  shows "ensures (\<lambda>r w2. resolves p w (popStack p w2) \<and> keepsMemory w (popStack p w2))
    (case out of
       Return (Inl err) w2 \<Rightarrow> Return (Inl err) w2
     | Return (Inr inst) w2 \<Rightarrow> Return (Inr inst) (cacheInstance p t l inst w2)
     | Panic msg \<Rightarrow> Panic msg
     | Deadlock \<Rightarrow> Deadlock)"
proof (cases out)
  case (Return r w2)
  show ?thesis
  proof (cases r)
    case (Inl e)
    with Return assms(1) show ?thesis by (auto intro: resolves_pop)
  next
    case (Inr v)
    with Return assms(1) have "resolves p (pushStack p t w) w2" "keepsMemory w w2" by simp_all
    moreover from assms(2) Return Inr have "produces (Implements w) reg" by simp
    ultimately show ?thesis
      using Return Inr assms(3,4) by (simp add: resolves_pop_cached)
  qed
next
  case (Panic m)
  then show ?thesis by simp
next
  case Deadlock
  with assms(1) show ?thesis by simp
qed

lemma main_effects:
  "ensures (\<lambda>r w'. resolves p w w' \<and> keepsMemory w w') (resolveService_main p t w)"
  "ensures (\<lambda>r w'. resolves p w w' \<and> keepsMemory w w') (createInstance_main p impl w)"
  "(\<forall>n fs a. inst = VPtr (Struct n fs) a \<longrightarrow> a < allocated w) \<longrightarrow>
     ensures (\<lambda>r w'. r = None \<and> resolves p w w' \<and>
        (\<forall>n fs a. inst = VPtr (Struct n fs) a \<longrightarrow> injectsInto a fs 0 w w'))
       (injectDependencies_main p inst w)"
  "a < allocated w \<longrightarrow>
     ensures (\<lambda>r w'. r = None \<and> resolves p w w' \<and> injectsInto a fs i w w')
       (injectFields_main p a fs i w)"
proof (induction p t w and p impl w and p inst w and p a fs i w
    rule: resolveService_main_createInstance_main_injectDependencies_main_injectFields_main.induct)
  case (1 p serviceType w)
  let ?w1 = "pushStack p serviceType w"
  show ?case
  proof (cases "serviceType \<in> set (resolutionStack (providers w p))")
    case True
    then show ?thesis by (subst resolveService_main.simps) simp
  next
    case onstack: False
    show ?thesis
    proof (cases "singletonCache (providers w (root (providers w p))) serviceType")
      case (Some inst)
      with onstack show ?thesis by (simp add: resolveService_main_hit)
    next
      case s: None
      show ?thesis
      proof (cases "scopedCache (providers w p) serviceType")
        case (Some inst)
        with onstack s show ?thesis by (simp add: resolveService_main_hit)
      next
        case c: None
        show ?thesis
        proof (cases "findRegistration (registrations (providers w p)) serviceType")
          case None
          with onstack s c show ?thesis by (simp add: resolveService_main_miss)
        next
          case (Some reg)
          consider (inst) "Instance reg \<noteq> VNil"
            | (fact) "Instance reg = VNil" "Factory reg \<noteq> VNil"
            | (impl) "Instance reg = VNil" "Factory reg = VNil" "Implementation reg \<noteq> VNil"
            | (none) "Instance reg = VNil" "Factory reg = VNil" "Implementation reg = VNil"
            by blast
          then show ?thesis
          proof cases
            case inst
            then have "produces (Implements w) reg" by (simp add: produces_def)
            with onstack s c Some inst show ?thesis
              by (simp add: resolveService_main_miss resolves_cacheInstance)
          next
            case fact
            have "ensures (\<lambda>r w2. resolves p w (popStack p w2) \<and> keepsMemory w (popStack p w2))
              (case callFactory p (Factory reg) serviceType ?w1 of
                 Return (Inl err) w2 \<Rightarrow> Return (Inl err) w2
               | Return (Inr inst) w2 \<Rightarrow> Return (Inr inst) (cacheInstance p serviceType (Lifetime reg) inst w2)
               | Panic msg \<Rightarrow> Panic msg
               | Deadlock \<Rightarrow> Deadlock)"
            proof (rule ensures_dispatch [OF _ _ onstack Some])
              show "ensures (\<lambda>r w2. resolves p ?w1 w2 \<and> keepsMemory w w2)
                  (callFactory p (Factory reg) serviceType ?w1)"
              proof (cases "callFactory p (Factory reg) serviceType ?w1")
                case (Return r w2)
                from callFactory_world [OF Return] Return show ?thesis
                  by (simp add: keepsMemory_def)
              next
                case (Panic m)
                then show ?thesis by simp
              next
                case Deadlock
                then show ?thesis by (simp add: callFactory_no_Deadlock)
              qed
              show "produces (Implements w) reg"
                if "callFactory p (Factory reg) serviceType ?w1 = Return (Inr v) w2" for v w2
                using callFactory_Inr [OF that] by (simp add: produces_def)
            qed
            with onstack s c Some fact show ?thesis
              by (simp add: resolveService_main_miss ensures_deferPop)
          next
            case impl
            have ih: "ensures (\<lambda>r w'. resolves p ?w1 w' \<and> keepsMemory ?w1 w')
                (createInstance_main p (Implementation reg) ?w1)"
              by (rule "1.IH" [OF onstack refl]) (use s c Some impl in simp_all)
            have "ensures (\<lambda>r w2. resolves p w (popStack p w2) \<and> keepsMemory w (popStack p w2))
              (case createInstance_main p (Implementation reg) ?w1 of
                 Return (Inl err) w2 \<Rightarrow> Return (Inl err) w2
               | Return (Inr inst) w2 \<Rightarrow> Return (Inr inst) (cacheInstance p serviceType (Lifetime reg) inst w2)
               | Panic msg \<Rightarrow> Panic msg
               | Deadlock \<Rightarrow> Deadlock)"
            proof (rule ensures_dispatch [OF _ _ onstack Some])
              show "ensures (\<lambda>r w2. resolves p ?w1 w2 \<and> keepsMemory w w2)
                  (createInstance_main p (Implementation reg) ?w1)"
                using ih by simp
              show "produces (Implements w) reg"
                if "createInstance_main p (Implementation reg) ?w1 = Return (Inr v) w2" for v w2
                using createInstance_main_Inr [OF that] impl by (auto simp: produces_def)
            qed
            with onstack s c Some impl show ?thesis
              by (simp add: resolveService_main_miss ensures_deferPop)
          next
            case none
            with onstack s c Some show ?thesis by (simp add: resolveService_main_miss)
          qed
        qed
      qed
    qed
  qed
next
  case (2 p implementation w)
  show ?case
  proof (cases "implType implementation")
    case None
    then show ?thesis
      by (subst createInstance_main.simps) (simp add: implType_def)
  next
    case (Some it)
    show ?thesis
    proof (cases "isPtrToStruct it")
      case False
      with Some show ?thesis by (simp add: createInstance_main_not_struct)
    next
      case True
      then obtain n fs where it: "it = Ptr (Struct n fs)"
        by (cases it rule: isPtrToStruct.cases) simp_all
      let ?inst = "VPtr (Struct n fs) (allocated w)"
      let ?w1 = "snd (New n fs w)"
      have new: "New n fs w = (?inst, ?w1)" by (simp add: New_def)
      have ih: "ensures (\<lambda>r w'. r = None \<and> resolves p ?w1 w' \<and>
          (\<forall>n' fs' a. ?inst = VPtr (Struct n' fs') a \<longrightarrow> injectsInto a fs' 0 ?w1 w'))
         (injectDependencies_main p ?inst ?w1)"
        using "2.IH" [of it "Struct n fs" n fs ?inst ?w1] Some it new
        by (simp add: implType_def)
      have "ensures (\<lambda>r w'. resolves p w w' \<and> keepsMemory w w')
        (case injectDependencies_main p ?inst ?w1 of
           Return (Some err) w2 \<Rightarrow> Return (Inl err) w2
         | Return None w2 \<Rightarrow> Return (Inr ?inst) w2
         | Panic msg \<Rightarrow> Panic msg
         | Deadlock \<Rightarrow> Deadlock)"
      proof (cases "injectDependencies_main p ?inst ?w1")
        case (Return r w2)
        with ih have r: "r = None" and res: "resolves p ?w1 w2"
          and inj: "injectsInto (allocated w) fs 0 ?w1 w2" by simp_all
        have "resolves p w w2" by (rule resolves_trans [OF resolves_New res])
        moreover have "keepsMemory w w2"
          using inj by (auto simp: injectsInto_def keepsMemory_def)
        ultimately show ?thesis using Return r by simp
      next
        case (Panic m)
        then show ?thesis by simp
      next
        case Deadlock
        with ih show ?thesis by simp
      qed
      then show ?thesis
        using Some it by (simp add: createInstance_main_struct)
    qed
  qed
next
  case (3 p inst w)
  show ?case
  proof (cases "\<exists>n fs a. inst = VPtr (Struct n fs) a")
    case True
    then obtain n fs a where inst: "inst = VPtr (Struct n fs) a" by blast
    show ?thesis
      using "3.IH" [OF inst refl] inst
      by (subst injectDependencies_main.simps) simp
  next
    case False
    then show ?thesis
      by (subst injectDependencies_main.simps) (auto split: val.split rtype.split)
  qed
next
  case (4 p a fs i w)
  show ?case
  proof (intro impI)
    assume a: "a < allocated w"
    show "ensures (\<lambda>r w'. r = None \<and> resolves p w w' \<and> injectsInto a fs i w w')
       (injectFields_main p a fs i w)"
    proof (cases "i < length fs")
      case False
      then show ?thesis by (subst injectFields_main.simps) simp
    next
      case i: True
      show ?thesis
      proof (cases "Exported (fs ! i)")
        case False
        from "4.IH"(1) [OF i False] a
        have "ensures (\<lambda>r w'. r = None \<and> resolves p w w' \<and> injectsInto a fs (Suc i) w w')
          (injectFields_main p a fs (Suc i) w)" by simp
        then have "ensures (\<lambda>r w'. r = None \<and> resolves p w w' \<and> injectsInto a fs i w w')
          (injectFields_main p a fs (Suc i) w)"
          by (rule ensures_mono) (use False in \<open>auto intro: injectsInto_skip simp: injectable_def\<close>)
        with i False show ?thesis by (subst injectFields_main.simps) simp
      next
        case e: True
        show ?thesis
        proof (cases "Kind (Type (fs ! i)) = KInterface")
          case False
          from "4.IH"(5) [OF i _ False] e a
          have "ensures (\<lambda>r w'. r = None \<and> resolves p w w' \<and> injectsInto a fs (Suc i) w w')
            (injectFields_main p a fs (Suc i) w)" by simp
          then have "ensures (\<lambda>r w'. r = None \<and> resolves p w w' \<and> injectsInto a fs i w w')
            (injectFields_main p a fs (Suc i) w)"
            by (rule ensures_mono) (use False in \<open>auto intro: injectsInto_skip simp: injectable_def\<close>)
          with i e False show ?thesis by (subst injectFields_main.simps) simp
        next
          case k: True
          from e k have inj: "injectable (fs ! i)" by (simp add: injectable_def)
          from "4.IH"(2) [OF i _ k] e
          have ih2: "ensures (\<lambda>r w'. resolves p w w' \<and> keepsMemory w w')
            (resolveService_main p (Type (fs ! i)) w)" by simp
          have "ensures (\<lambda>r w'. r = None \<and> resolves p w w' \<and> injectsInto a fs i w w')
            (case resolveService_main p (Type (fs ! i)) w of
              Return (Inr service) w1 \<Rightarrow>
                (case typeOf service of
                   None \<Rightarrow> Panic ''reflect: call of reflect.Value.Set on zero Value''
                 | Some t \<Rightarrow>
                     if Implements w1 t (Type (fs ! i))
                     then injectFields_main p a fs (Suc i) (Set_field a i service w1)
                     else Panic ''reflect.Set: value is not assignable to type'')
            | Return (Inl err) w1 \<Rightarrow> injectFields_main p a fs (Suc i) w1
            | Panic msg \<Rightarrow> Panic msg
            | Deadlock \<Rightarrow> Deadlock)"
          proof (cases "resolveService_main p (Type (fs ! i)) w")
            case (Return r w1)
            with ih2 have res: "resolves p w w1" and km: "keepsMemory w w1" by simp_all
            from res have al: "allocated w \<le> allocated w1" by (simp add: resolves_def)
            show ?thesis
            proof (cases r)
              case (Inl err)
              from "4.IH"(3) [OF i _ k Return Inl] e a al
              have "ensures (\<lambda>r w'. r = None \<and> resolves p w1 w' \<and> injectsInto a fs (Suc i) w1 w')
                (injectFields_main p a fs (Suc i) w1)" by simp
              then have "ensures (\<lambda>r w'. r = None \<and> resolves p w w' \<and> injectsInto a fs i w w')
                (injectFields_main p a fs (Suc i) w1)"
                by (rule ensures_mono)
                   (use res km a al in \<open>auto intro: resolves_trans injectsInto_after\<close>)
              with Return Inl show ?thesis by simp
            next
              case (Inr service)
              show ?thesis
              proof (cases "typeOf service")
                case None
                with Return Inr show ?thesis by simp
              next
                case (Some t)
                show ?thesis
                proof (cases "Implements w1 t (Type (fs ! i))")
                  case False
                  with Return Inr Some show ?thesis by simp
                next
                  case True
                  from "4.IH"(4) [OF i _ k Return Inr Some True] e a al
                  have "ensures (\<lambda>r w'. r = None \<and> resolves p (Set_field a i service w1) w' \<and>
                      injectsInto a fs (Suc i) (Set_field a i service w1) w')
                    (injectFields_main p a fs (Suc i) (Set_field a i service w1))" by simp
                  then have "ensures (\<lambda>r w'. r = None \<and> resolves p w w' \<and> injectsInto a fs i w w')
                    (injectFields_main p a fs (Suc i) (Set_field a i service w1))"
                  proof (rule ensures_mono)
                    fix r w'
                    assume "r = None \<and> resolves p (Set_field a i service w1) w' \<and>
                      injectsInto a fs (Suc i) (Set_field a i service w1) w'"
                    then have r: "r = None" and r2: "resolves p (Set_field a i service w1) w'"
                      and i2: "injectsInto a fs (Suc i) (Set_field a i service w1) w'" by simp_all
                    have "resolves p w w'"
                      by (rule resolves_trans [OF res resolves_trans [OF resolves_Set_field r2]])
                    moreover have "injectsInto a fs i w w'"
                      by (rule injectsInto_after_Set [OF km a al i inj i2])
                    ultimately show "r = None \<and> resolves p w w' \<and> injectsInto a fs i w w'"
                      using r by simp
                  qed
                  with Return Inr Some True show ?thesis by simp
                qed
              qed
            qed
          next
            case (Panic m)
            then show ?thesis by simp
          next
            case Deadlock
            with ih2 show ?thesis by simp
          qed
          with i e k show ?thesis by (subst injectFields_main.simps) simp
        qed
      qed
    qed
  qed
qed

section \<open>Package syringe under its lock\<close>

lemma createInstance_syringe_locked:
  assumes "mu (providers w p)" and "implType impl = Some (Ptr (Struct n fs))"
  shows "createInstance_syringe p impl w =
    (if list_ex injectable fs then Deadlock
     else Return (Inr (VPtr (Struct n fs) (allocated w))) (snd (New n fs w)))"
proof -
  have "mu (providers (snd (New n fs w)) p)" using assms(1) by simp
  then show ?thesis
    using assms(2)
    by (simp add: createInstance_syringe_struct injectDependencies_syringe_locked)
qed

lemma createInstance_syringe_locked_Return:
  assumes "mu (providers w p)" and "createInstance_syringe p impl w = Return r w'"
  shows "(\<exists>e. r = Inl e \<and> w' = w) \<or>
         (\<exists>n fs. implType impl = Some (Ptr (Struct n fs)) \<and> \<not> list_ex injectable fs \<and>
            r = Inr (VPtr (Struct n fs) (allocated w)) \<and> w' = snd (New n fs w))"
proof (cases "implType impl")
  case None
  with assms(2) show ?thesis
    by (subst (asm) createInstance_syringe.simps) (simp add: implType_def)
next
  case (Some it)
  show ?thesis
  proof (cases "isPtrToStruct it")
    case False
    with Some assms(2) show ?thesis by (auto simp: createInstance_syringe_not_struct)
  next
    case True
    then obtain n fs where "it = Ptr (Struct n fs)"
      by (cases it rule: isPtrToStruct.cases) simp_all
    with Some assms show ?thesis
      by (auto simp: createInstance_syringe_locked split: if_splits)
  qed
qed

lemma resolveService_syringe_locked:
  assumes "mu (providers w p)" and "resolveService_syringe p t w = Return r w'"
  shows "resolves p w w' \<and> keepsMemory w w'"
proof (cases "t \<in> set (resolutionStack (providers w p))")
  case True
  with assms(2) show ?thesis by (subst (asm) resolveService_syringe.simps) auto
next
  case onstack: False
  let ?w1 = "pushStack p t w"
  show ?thesis
  proof (cases "singletonCache (providers w (root (providers w p))) t")
    case (Some inst)
    with onstack assms(2) show ?thesis by (auto simp: resolveService_syringe_hit)
  next
    case s: None
    show ?thesis
    proof (cases "scopedCache (providers w p) t")
      case (Some inst)
      with onstack s assms(2) show ?thesis by (auto simp: resolveService_syringe_hit)
    next
      case c: None
      show ?thesis
      proof (cases "findRegistration (registrations (providers w p)) t")
        case None
        with onstack s c assms(2) show ?thesis by (auto simp: resolveService_syringe_miss)
      next
        case (Some reg)
        consider (inst) "Instance reg \<noteq> VNil"
          | (fact) "Instance reg = VNil" "Factory reg \<noteq> VNil"
          | (impl) "Instance reg = VNil" "Factory reg = VNil" "Implementation reg \<noteq> VNil"
          | (none) "Instance reg = VNil" "Factory reg = VNil" "Implementation reg = VNil"
          by blast
        then show ?thesis
        proof cases
          case inst
          then have "produces (Implements w) reg" by (simp add: produces_def)
          with onstack s c Some inst assms(2) show ?thesis
            by (auto simp: resolveService_syringe_miss resolves_cacheInstance)
        next
          case fact
          show ?thesis
          proof (cases "callFactory p (Factory reg) t ?w1")
            case (Return r1 w2)
            from callFactory_world [OF Return] have w2: "w2 = ?w1" .
            show ?thesis
            proof (cases r1)
              case (Inl e)
              with onstack s c Some fact assms(2) Return w2 show ?thesis
                by (auto simp: resolveService_syringe_miss)
            next
              case (Inr x)
              with callFactory_Inr [of p "Factory reg" t ?w1 x w2] Return
              have "produces (Implements w) reg" by (simp add: produces_def)
              with onstack s c Some fact assms(2) Return w2 Inr show ?thesis
                by (auto simp: resolveService_syringe_miss resolves_cacheInstance)
            qed
          next
            case (Panic m)
            with onstack s c Some fact assms(2) show ?thesis
              by (simp add: resolveService_syringe_miss deferPop_def)
          next
            case Deadlock
            then show ?thesis by (simp add: callFactory_no_Deadlock)
          qed
        next
          case impl
          show ?thesis
          proof (cases "createInstance_syringe p (Implementation reg) ?w1")
            case (Return r1 w2)
            have m: "mu (providers ?w1 p)" using assms(1) by simp
            from createInstance_syringe_locked_Return [OF m Return]
            show ?thesis
            proof (elim disjE exE conjE)
              fix e
              assume "r1 = Inl e" "w2 = ?w1"
              with onstack s c Some impl assms(2) Return show ?thesis
                by (auto simp: resolveService_syringe_miss)
            next
              fix n fs
              assume it: "implType (Implementation reg) = Some (Ptr (Struct n fs))"
                and r1: "r1 = Inr (VPtr (Struct n fs) (allocated ?w1))"
                and w2: "w2 = snd (New n fs ?w1)"
              from it impl have pr: "produces (Implements w) reg" by (simp add: produces_def)
              have "resolves p ?w1 w2" unfolding w2 by simp
              from resolves_pop_cached [OF this onstack Some pr]
              have "resolves p w (popStack p (cacheInstance p t (Lifetime reg)
                  (VPtr (Struct n fs) (allocated w)) w2))" .
              moreover have "resolutionStack (providers w2 p) \<noteq> []" unfolding w2 by simp
              moreover have "keepsMemory w w2" unfolding w2 by (simp add: keepsMemory_def)
              ultimately show ?thesis
                using onstack s c Some impl assms(2) Return r1
                by (auto simp: resolveService_syringe_miss deferPop_def)
            qed
          next
            case (Panic m)
            with onstack s c Some impl assms(2) show ?thesis
              by (simp add: resolveService_syringe_miss deferPop_def)
          next
            case Deadlock
            with onstack s c Some impl assms(2) show ?thesis
              by (simp add: resolveService_syringe_miss deferPop_def)
          qed
        next
          case none
          with onstack s c Some assms(2) show ?thesis
            by (auto simp: resolveService_syringe_miss)
        qed
      qed
    qed
  qed
qed

section \<open>The public operations keep a world consistent\<close>

lemma resolves_consistent:
  "resolves p w w' \<Longrightarrow> consistent w \<Longrightarrow> p < nextProvider w \<Longrightarrow> consistent w'"
  by (simp add: resolves_def)

lemma GetService_main_Return:
  assumes "GetService_main p v w = Return r w'"
  obtains t w1 where "typeObj v = Some t" "\<not> mu (providers w p)"
    "resolveService_main p t (resetStack p (Lock p w)) = Return r w1" "w' = Unlock p w1"
  using assms
  by (auto simp: GetService_main_def deferUnlock_def split: option.splits if_splits outcome.splits)

lemma GetService_syringe_Return:
  assumes "GetService_syringe p v w = Return r w'"
  obtains t w1 where "typeObj v = Some t" "\<not> mu (providers w p)"
    "resolveService_syringe p t (resetStack p (Lock p w)) = Return r w1" "w' = Unlock p w1"
    "\<And>inst. r = Inr inst \<Longrightarrow> \<not> needsInjection inst"
proof -
  from assms obtain t where t: "typeObj v = Some t" and m: "\<not> mu (providers w p)"
    by (subst (asm) GetService_syringe.simps) (auto split: option.splits if_splits)
  let ?w0 = "resetStack p (Lock p w)"
  have m0: "mu (providers ?w0 p)" by simp
  show ?thesis
  proof (cases "resolveService_syringe p t ?w0")
    case (Return r1 w1)
    from resolveService_syringe_locked [OF m0 Return]
    have "skeleton w1 = skeleton ?w0" by (simp add: resolves_def)
    from skeleton_fields(4) [OF this, of p] have m1: "mu (providers w1 p)" by simp
    show ?thesis
    proof (cases r1)
      case (Inl e)
      from GetService_syringe_error [OF t m Return [unfolded Inl]] assms Inl Return t m
      show ?thesis by (intro that [of t w1]) auto
    next
      case (Inr inst)
      from GetService_syringe_result [OF t m Return [unfolded Inr] m1] assms Inr Return t m
      show ?thesis by (intro that [of t w1]) (auto split: if_splits)
    qed
  next
    case (Panic msg)
    with assms t m show ?thesis by (simp add: GetService_syringe_unfold deferUnlock_def)
  next
    case Deadlock
    with assms t m show ?thesis by (simp add: GetService_syringe_unfold deferUnlock_def)
  qed
qed

lemma consistent_GetService_main:
  assumes "consistent w" and "p < nextProvider w" and "GetService_main p v w = Return r w'"
  shows "consistent w'"
proof -
  from assms(3) obtain t w1 where
    r: "resolveService_main p t (resetStack p (Lock p w)) = Return r w1" and w': "w' = Unlock p w1"
    by (rule GetService_main_Return)
  from main_effects(1) [of p "resetStack p (Lock p w)" t] r
  have "resolves p (resetStack p (Lock p w)) w1" by simp
  from resolves_consistent [OF this] assms(1,2) show ?thesis by (simp add: w')
qed

lemma consistent_GetService_syringe:
  assumes "consistent w" and "p < nextProvider w" and "GetService_syringe p v w = Return r w'"
  shows "consistent w'"
proof -
  from assms(3) obtain t w1 where
    r: "resolveService_syringe p t (resetStack p (Lock p w)) = Return r w1" and w': "w' = Unlock p w1"
    by (rule GetService_syringe_Return)
  have "mu (providers (resetStack p (Lock p w)) p)" by simp
  from resolveService_syringe_locked [OF this r]
  have "resolves p (resetStack p (Lock p w)) w1" by simp
  from resolves_consistent [OF this] assms(1,2) show ?thesis by (simp add: w')
qed

section \<open>The errors a resolution returns\<close>

lemma createInstance_main_no_error:
  assumes "implType impl = Some (Ptr (Struct n fs))"
  shows "createInstance_main p impl w \<noteq> Return (Inl e) w'"
proof -
  let ?w1 = "snd (New n fs w)"
  have "allocated w < allocated ?w1" by simp
  with main_effects(3) [of "VPtr (Struct n fs) (allocated w)" ?w1 p]
  have "ensures (\<lambda>r w'. r = None) (injectDependencies_main p (VPtr (Struct n fs) (allocated w)) ?w1)"
    by (auto elim: ensures_mono)
  then show ?thesis
    by (cases "injectDependencies_main p (VPtr (Struct n fs) (allocated w)) ?w1")
       (simp_all add: createInstance_main_struct [OF assms])
qed

lemma createInstance_main_none:
  "implType impl = None \<Longrightarrow> createInstance_main p impl w = Panic ''invalid memory address or nil pointer dereference''"
  by (subst createInstance_main.simps) (simp add: implType_def)

lemma createInstance_syringe_none:
  "implType impl = None \<Longrightarrow> createInstance_syringe p impl w = Panic ''invalid memory address or nil pointer dereference''"
  by (subst createInstance_syringe.simps) (simp add: implType_def)

lemma isPtrToStructE:
  assumes "isPtrToStruct it"
  obtains n fs where "it = Ptr (Struct n fs)"
  using assms by (cases it rule: isPtrToStruct.cases) simp_all

lemma deferPop_Return:
  "deferPop p out = Return r w' \<Longrightarrow> \<exists>w2. out = Return r w2 \<and> w' = popStack p w2"
  by (cases out) (simp_all add: deferPop_def split: if_splits)

lemma dispatch_Inl:
  assumes "(case out of
       Return (Inl err) w2 \<Rightarrow> Return (Inl err) w2
     | Return (Inr inst) w2 \<Rightarrow> Return (Inr inst) (f inst w2)
     | Panic msg \<Rightarrow> Panic msg
     | Deadlock \<Rightarrow> Deadlock) = Return (Inl e) w3"
  shows "out = Return (Inl e) w3"
  using assms by (cases out) (auto split: sum.splits)

lemma callFactory_missFailure:
  assumes "callFactory p (Factory reg) t w1 = Return (Inl e) w2" "Instance reg = VNil"
    "Factory reg \<noteq> VNil" "Implements w1 = I"
  shows "missFailure I (Some reg) t = Some e"
  using assms
  by (auto simp: callFactory_def missFailure_def factoryConforms_def
      split: val.splits if_splits option.splits)

lemma resolveService_main_Inl:
  assumes "resolveService_main p t w = Return (Inl e) w'"
    and "t \<notin> set (resolutionStack (providers w p))"
  shows "missFailure (Implements w) (findRegistration (registrations (providers w p)) t) t = Some e"
proof -
  have s: "singletonCache (providers w (root (providers w p))) t = None"
    using assms by (cases "singletonCache (providers w (root (providers w p))) t")
      (simp_all add: resolveService_main_hit)
  have c: "scopedCache (providers w p) t = None"
    using assms s by (cases "scopedCache (providers w p) t") (simp_all add: resolveService_main_hit)
  note miss = resolveService_main_miss [OF assms(2) s c]
  show ?thesis
  proof (cases "findRegistration (registrations (providers w p)) t")
    case None
    with assms(1) show ?thesis by (simp add: miss missFailure_def)
  next
    case (Some reg)
    consider (inst) "Instance reg \<noteq> VNil"
      | (fact) "Instance reg = VNil" "Factory reg \<noteq> VNil"
      | (impl) "Instance reg = VNil" "Factory reg = VNil" "Implementation reg \<noteq> VNil"
      | (none) "Instance reg = VNil" "Factory reg = VNil" "Implementation reg = VNil"
      by blast
    then show ?thesis
    proof cases
      case inst
      with assms(1) Some show ?thesis by (simp add: miss)
    next
      case fact
      from assms(1) [unfolded miss] obtain w2 where
        "(case callFactory p (Factory reg) t (pushStack p t w) of
            Return (Inl err) w2 \<Rightarrow> Return (Inl err) w2
          | Return (Inr inst) w2 \<Rightarrow> Return (Inr inst) (cacheInstance p t (Lifetime reg) inst w2)
          | Panic msg \<Rightarrow> Panic msg
          | Deadlock \<Rightarrow> Deadlock) = Return (Inl e) w2"
        using Some fact by (auto dest: deferPop_Return)
      from dispatch_Inl [OF this]
      have "callFactory p (Factory reg) t (pushStack p t w) = Return (Inl e) w2" .
      from callFactory_missFailure [OF this fact, of "Implements w"] Some
      show ?thesis by simp
    next
      case impl
      from assms(1) [unfolded miss] obtain w2 where
        "(case createInstance_main p (Implementation reg) (pushStack p t w) of
            Return (Inl err) w2 \<Rightarrow> Return (Inl err) w2
          | Return (Inr inst) w2 \<Rightarrow> Return (Inr inst) (cacheInstance p t (Lifetime reg) inst w2)
          | Panic msg \<Rightarrow> Panic msg
          | Deadlock \<Rightarrow> Deadlock) = Return (Inl e) w2"
        using Some impl by (auto dest: deferPop_Return)
      from dispatch_Inl [OF this]
      have ci: "createInstance_main p (Implementation reg) (pushStack p t w) = Return (Inl e) w2" .
      show ?thesis
      proof (cases "implType (Implementation reg)")
        case None
        with ci show ?thesis by (simp add: createInstance_main_none)
      next
        case (Some it)
        show ?thesis
        proof (cases "isPtrToStruct it")
          case True
          then obtain n fs where "it = Ptr (Struct n fs)" by (rule isPtrToStructE)
          with Some ci show ?thesis by (simp add: createInstance_main_no_error)
        next
          case False
          with Some ci \<open>findRegistration (registrations (providers w p)) t = Some reg\<close> impl
          show ?thesis by (auto simp: createInstance_main_not_struct missFailure_def)
        qed
      qed
    next
      case none
      with assms(1) Some show ?thesis by (auto simp: miss missFailure_def)
    qed
  qed
qed

lemma resolveService_syringe_Inl:
  assumes "resolveService_syringe p t w = Return (Inl e) w'"
    and "t \<notin> set (resolutionStack (providers w p))" and "mu (providers w p)"
  shows "missFailure (Implements w) (findRegistration (registrations (providers w p)) t) t = Some e"
proof -
  have s: "singletonCache (providers w (root (providers w p))) t = None"
    using assms by (cases "singletonCache (providers w (root (providers w p))) t")
      (simp_all add: resolveService_syringe_hit)
  have c: "scopedCache (providers w p) t = None"
    using assms s by (cases "scopedCache (providers w p) t") (simp_all add: resolveService_syringe_hit)
  note miss = resolveService_syringe_miss [OF assms(2) s c]
  show ?thesis
  proof (cases "findRegistration (registrations (providers w p)) t")
    case None
    with assms(1) show ?thesis by (simp add: miss missFailure_def)
  next
    case (Some reg)
    consider (inst) "Instance reg \<noteq> VNil"
      | (fact) "Instance reg = VNil" "Factory reg \<noteq> VNil"
      | (impl) "Instance reg = VNil" "Factory reg = VNil" "Implementation reg \<noteq> VNil"
      | (none) "Instance reg = VNil" "Factory reg = VNil" "Implementation reg = VNil"
      by blast
    then show ?thesis
    proof cases
      case inst
      with assms(1) Some show ?thesis by (simp add: miss)
    next
      case fact
      from assms(1) [unfolded miss] obtain w2 where
        "(case callFactory p (Factory reg) t (pushStack p t w) of
            Return (Inl err) w2 \<Rightarrow> Return (Inl err) w2
          | Return (Inr inst) w2 \<Rightarrow> Return (Inr inst) (cacheInstance p t (Lifetime reg) inst w2)
          | Panic msg \<Rightarrow> Panic msg
          | Deadlock \<Rightarrow> Deadlock) = Return (Inl e) w2"
        using Some fact by (auto dest: deferPop_Return)
      from dispatch_Inl [OF this]
      have "callFactory p (Factory reg) t (pushStack p t w) = Return (Inl e) w2" .
      from callFactory_missFailure [OF this fact, of "Implements w"] Some
      show ?thesis by simp
    next
      case impl
      from assms(1) [unfolded miss] obtain w2 where
        "(case createInstance_syringe p (Implementation reg) (pushStack p t w) of
            Return (Inl err) w2 \<Rightarrow> Return (Inl err) w2
          | Return (Inr inst) w2 \<Rightarrow> Return (Inr inst) (cacheInstance p t (Lifetime reg) inst w2)
          | Panic msg \<Rightarrow> Panic msg
          | Deadlock \<Rightarrow> Deadlock) = Return (Inl e) w2"
        using Some impl by (auto dest: deferPop_Return)
      from dispatch_Inl [OF this]
      have ci: "createInstance_syringe p (Implementation reg) (pushStack p t w) = Return (Inl e) w2" .
      have m: "mu (providers (pushStack p t w) p)" using assms(3) by simp
      show ?thesis
      proof (cases "implType (Implementation reg)")
        case None
        with ci show ?thesis by (simp add: createInstance_syringe_none)
      next
        case (Some it)
        show ?thesis
        proof (cases "isPtrToStruct it")
          case True
          then obtain n fs where "it = Ptr (Struct n fs)" by (rule isPtrToStructE)
          with Some ci m show ?thesis
            by (simp add: createInstance_syringe_locked split: if_splits)
        next
          case False
          with Some ci \<open>findRegistration (registrations (providers w p)) t = Some reg\<close> impl
          show ?thesis by (auto simp: createInstance_syringe_not_struct missFailure_def)
        qed
      qed
    next
      case none
      with assms(1) Some show ?thesis by (auto simp: miss missFailure_def)
    qed
  qed
qed

lemma GetService_main_Inl:
  assumes "GetService_main p v w = Return (Inl e) w'" and "typeObj v = Some t"
  shows "missFailure (Implements w) (findRegistration (registrations (providers w p)) t) t = Some e"
proof -
  from assms obtain w1 where
    "resolveService_main p t (resetStack p (Lock p w)) = Return (Inl e) w1"
    by (auto elim: GetService_main_Return)
  from resolveService_main_Inl [OF this] show ?thesis by simp
qed

lemma GetService_syringe_Inl:
  assumes "GetService_syringe p v w = Return (Inl e) w'" and "typeObj v = Some t"
  shows "missFailure (Implements w) (findRegistration (registrations (providers w p)) t) t = Some e"
proof -
  from assms obtain w1 where
    "resolveService_syringe p t (resetStack p (Lock p w)) = Return (Inl e) w1"
    by (auto elim: GetService_syringe_Return)
  from resolveService_syringe_Inl [OF this] show ?thesis by simp
qed

section \<open>Field injection\<close>

text \<open>
  Claim C9. Field injection is best effort. In package main, for the loop of
  \<^verbatim>\<open>injectDependencies\<close> at field \<open>i\<close> of an object the program has allocated: when the
  field is settable and of interface type and its resolution returns an error, the loop
  goes on with the next field, the object is as it was, and when the injection returns
  it returns no error and has left field \<open>i\<close> as it was. An injection that returns has
  returned no error, has kept the number of fields and has left every field that is not
  settable or not of interface type as it was. An error that \<^verbatim>\<open>GetService\<close> returns is
  the failure of the requested contract's own registration (\<open>missFailure\<close>: not found,
  no strategy, the factory's error, a factory of the wrong shape, a blueprint that is no
  pointer to a struct). In package syringe the last holds too, and under the provider's
  lock, where every call of it is made, \<^verbatim>\<open>injectDependencies\<close> returns no error and
  changes nothing when the value has no settable field of interface type, and blocks
  otherwise: its call of \<^verbatim>\<open>GetService\<close> for the first such field waits for the lock
  that the caller holds.
\<close>

theorem field_injection_is_best_effort:
  assumes "a < allocated w"
  shows "(i < length fs \<and> injectable (fs ! i) \<and>
          resolveService_main p (Type (fs ! i)) w = Return (Inl err) w1 \<longrightarrow>
            injectFields_main p a fs i w = injectFields_main p a fs (Suc i) w1 \<and>
            memory w1 a = memory w a \<and>
            (\<forall>r w'. injectFields_main p a fs i w = Return r w' \<longrightarrow>
               r = None \<and> memory w' a ! i = memory w a ! i)) \<and>
         (\<forall>r w'. injectDependencies_main p (VPtr (Struct n fs) a) w = Return r w' \<longrightarrow>
            r = None \<and> length (memory w' a) = length (memory w a) \<and>
            (\<forall>j. \<not> (j < length fs \<and> injectable (fs ! j)) \<longrightarrow> memory w' a ! j = memory w a ! j)) \<and>
         (\<forall>t e w'. typeObj v = Some t \<and> GetService_main p v w = Return (Inl e) w' \<longrightarrow>
            missFailure (Implements w) (findRegistration (registrations (providers w p)) t) t = Some e) \<and>
         (\<forall>t e w'. typeObj v = Some t \<and> GetService_syringe p v w = Return (Inl e) w' \<longrightarrow>
            missFailure (Implements w) (findRegistration (registrations (providers w p)) t) t = Some e) \<and>
         injectDependencies_syringe p inst (Lock p w) =
           (if needsInjection inst then Deadlock else Return None (Lock p w))"
proof (intro conjI impI allI)
  assume h: "i < length fs \<and> injectable (fs ! i) \<and>
    resolveService_main p (Type (fs ! i)) w = Return (Inl err) w1"
  then show step: "injectFields_main p a fs i w = injectFields_main p a fs (Suc i) w1"
    by (subst injectFields_main.simps) (simp add: injectable_def)
  from main_effects(1) [of p w "Type (fs ! i)"] h
  have r: "resolves p w w1" and k: "keepsMemory w w1" by simp_all
  from k assms show m: "memory w1 a = memory w a" by (simp add: keepsMemory_def)
  fix r w'
  assume "injectFields_main p a fs i w = Return r w'"
  with step have ret: "injectFields_main p a fs (Suc i) w1 = Return r w'" by simp
  from r assms have "a < allocated w1" by (simp add: resolves_def)
  with main_effects(4) [of a w1 p fs "Suc i"] ret
  have "r = None" and "injectsInto a fs (Suc i) w1 w'" by simp_all
  then show "r = None" and "memory w' a ! i = memory w a ! i"
    using m by (simp_all add: injectsInto_def)
next
  fix r w'
  assume "injectDependencies_main p (VPtr (Struct n fs) a) w = Return r w'"
  with main_effects(3) [of "VPtr (Struct n fs) a" w p] assms
  have "r = None" and i: "injectsInto a fs 0 w w'" by simp_all
  then show "r = None" by simp
  from i show "length (memory w' a) = length (memory w a)" by (simp add: injectsInto_def)
  fix j
  assume "\<not> (j < length fs \<and> injectable (fs ! j))"
  with i show "memory w' a ! j = memory w a ! j" unfolding injectsInto_def by blast
next
  fix t e w'
  assume "typeObj v = Some t \<and> GetService_main p v w = Return (Inl e) w'"
  then show "missFailure (Implements w) (findRegistration (registrations (providers w p)) t) t = Some e"
    using GetService_main_Inl by blast
next
  fix t e w'
  assume "typeObj v = Some t \<and> GetService_syringe p v w = Return (Inl e) w'"
  then show "missFailure (Implements w) (findRegistration (registrations (providers w p)) t) t = Some e"
    using GetService_syringe_Inl by blast
next
  have "mu (providers (Lock p w) p)" by (simp add: Lock_def)
  then show "injectDependencies_syringe p inst (Lock p w) =
      (if needsInjection inst then Deadlock else Return None (Lock p w))"
    by (rule injectDependencies_syringe_needs)
qed

text \<open>
  An example: \<^verbatim>\<open>type EnglishGreeter struct { Log Logger; Name string; out Writer }\<close> with
  \<^verbatim>\<open>Logger\<close> and \<^verbatim>\<open>Writer\<close> interfaces, registered as the blueprint of \<^verbatim>\<open>Greeter\<close> by
  \<^verbatim>\<open>AddTransient((*Greeter)(nil), (*EnglishGreeter)(nil))\<close>; nothing is registered for
  \<^verbatim>\<open>Logger\<close>. \<open>greeterWorld\<close> is the program with one \<^verbatim>\<open>EnglishGreeter\<close> allocated.
\<close>

definition greeterFields :: "StructField list" where
  "greeterFields =
     [StructField ''Log'' True (Interface ''Logger''),
      StructField ''Name'' True (Basic ''string''),
      StructField ''out'' False (Interface ''Writer'')]"

definition greeterRegistration :: DependencyRegistration where
  "greeterRegistration =
     \<lparr>ServiceType = Interface ''Greeter'',
      Implementation = VZero (Ptr (Struct ''EnglishGreeter'' greeterFields)),
      Factory = VNil, Instance = VNil, Lifetime = Transient\<rparr>"

definition greeterProgram :: world where
  "greeterProgram =
     snd (BuildServiceProvider \<lparr>c_registrations = [greeterRegistration]\<rparr> (startWorld exampleImplements))"

definition greeterWorld :: world where
  "greeterWorld = snd (New ''EnglishGreeter'' greeterFields greeterProgram)"

lemma greeterProgram_fields:
  "\<not> mu (providers greeterProgram 0)"
  "root (providers greeterProgram 0) = 0"
  "registrations (providers greeterProgram 0) = [greeterRegistration]"
  "singletonCache (providers greeterProgram 0) = Map.empty"
  "scopedCache (providers greeterProgram 0) = Map.empty"
  "resolutionStack (providers greeterProgram 0) = []"
  "allocated greeterProgram = 0"
  "Implements greeterProgram = exampleImplements"
  by (simp_all add: greeterProgram_def BuildServiceProvider_def startWorld_def Let_def)

lemma greeterWorld_fields:
  "\<not> mu (providers greeterWorld 0)"
  "root (providers greeterWorld 0) = 0"
  "registrations (providers greeterWorld 0) = [greeterRegistration]"
  "singletonCache (providers greeterWorld 0) = Map.empty"
  "scopedCache (providers greeterWorld 0) = Map.empty"
  "resolutionStack (providers greeterWorld 0) = []"
  "allocated greeterWorld = 1"
  "Implements greeterWorld = exampleImplements"
  "memory greeterWorld 0 = [VNil, VZero (Basic ''string''), VNil]"
  by (simp_all add: greeterWorld_def greeterProgram_fields greeterFields_def)

lemma greeter_Logger_unregistered:
  "findRegistration [greeterRegistration] (Interface ''Logger'') = None"
  by (simp add: findRegistration_def greeterRegistration_def)

lemma greeter_Logger_not_found:
  assumes "registrations (providers w 0) = [greeterRegistration]"
    and "root (providers w 0) = 0"
    and "singletonCache (providers w 0) (Interface ''Logger'') = None"
    and "scopedCache (providers w 0) (Interface ''Logger'') = None"
    and "Interface ''Logger'' \<notin> set (resolutionStack (providers w 0))"
  shows "resolveService_main 0 (Interface ''Logger'') w =
    Return (Inl (Errorf_w ''service not found: Logger'' ErrServiceNotFound)) w"
  by (rule resolveService_main_failure)
     (use assms in \<open>simp_all add: greeter_Logger_unregistered missFailure_def\<close>)

lemma greeter_injection:
  assumes "registrations (providers w 0) = [greeterRegistration]"
    and "root (providers w 0) = 0"
    and "singletonCache (providers w 0) (Interface ''Logger'') = None"
    and "scopedCache (providers w 0) (Interface ''Logger'') = None"
    and "Interface ''Logger'' \<notin> set (resolutionStack (providers w 0))"
  shows "injectDependencies_main 0 (VPtr (Struct ''EnglishGreeter'' greeterFields) a) w = Return None w"
proof -
  have l: "length greeterFields = Suc (Suc (Suc 0))"
    "Exported (greeterFields ! 0)" "Type (greeterFields ! 0) = Interface ''Logger''"
    "Exported (greeterFields ! Suc 0)" "Type (greeterFields ! Suc 0) = Basic ''string''"
    "\<not> Exported (greeterFields ! Suc (Suc 0))"
    by (simp_all add: greeterFields_def)
  have 3: "injectFields_main 0 a greeterFields (Suc (Suc (Suc 0))) w = Return None w"
    by (subst injectFields_main.simps) (simp add: l)
  have 2: "injectFields_main 0 a greeterFields (Suc (Suc 0)) w = Return None w"
    by (subst injectFields_main.simps) (simp add: l 3)
  have 1: "injectFields_main 0 a greeterFields (Suc 0) w = Return None w"
    by (subst injectFields_main.simps) (simp add: l 2)
  have 0: "injectFields_main 0 a greeterFields 0 w = Return None w"
    by (subst injectFields_main.simps) (simp add: l 1 greeter_Logger_not_found [OF assms])
  show ?thesis
    by (subst injectDependencies_main.simps) (simp add: 0)
qed

theorem field_injection_is_best_effort_witness:
  "resolveService_main 0 (Interface ''Logger'') greeterWorld =
     Return (Inl (Errorf_w ''service not found: Logger'' ErrServiceNotFound)) greeterWorld \<and>
   injectFields_main 0 0 greeterFields 0 greeterWorld =
     injectFields_main 0 0 greeterFields (Suc 0) greeterWorld \<and>
   injectDependencies_main 0 (VPtr (Struct ''EnglishGreeter'' greeterFields) 0) greeterWorld =
     Return None greeterWorld \<and>
   memory greeterWorld 0 = [VNil, VZero (Basic ''string''), VNil] \<and>
   GetService_main 0 (VType (Interface ''Logger'')) greeterWorld =
     Return (Inl (Errorf_w ''service not found: Logger'' ErrServiceNotFound)) (resetStack 0 greeterWorld) \<and>
   GetService_syringe 0 (VType (Interface ''Logger'')) greeterWorld =
     Return (Inl (Errorf_w ''service not found: Logger'' ErrServiceNotFound)) (resetStack 0 greeterWorld) \<and>
   missFailure (Implements greeterWorld)
     (findRegistration (registrations (providers greeterWorld 0)) (Interface ''Logger''))
     (Interface ''Logger'') = Some (Errorf_w ''service not found: Logger'' ErrServiceNotFound) \<and>
   injectDependencies_syringe 0 (VPtr (Struct ''EnglishGreeter'' greeterFields) 0) (Lock 0 greeterWorld) =
     Deadlock"
proof -
  let ?nf = "Errorf_w ''service not found: Logger'' ErrServiceNotFound"
  have a: "0 < allocated greeterWorld" by (simp add: greeterWorld_fields)
  have r: "resolveService_main 0 (Interface ''Logger'') greeterWorld = Return (Inl ?nf) greeterWorld"
    by (rule greeter_Logger_not_found) (simp_all add: greeterWorld_fields)
  have i: "injectDependencies_main 0 (VPtr (Struct ''EnglishGreeter'' greeterFields) 0) greeterWorld =
      Return None greeterWorld"
    by (rule greeter_injection) (simp_all add: greeterWorld_fields)
  have c: "consistent greeterWorld"
    unfolding greeterWorld_def greeterProgram_def
    by (simp add: consistent_Build consistent_start)
  have p: "0 < nextProvider greeterWorld"
    by (simp add: greeterWorld_def greeterProgram_def BuildServiceProvider_def startWorld_def Let_def)
  have t: "typeObj (VType (Interface ''Logger'')) = Some (Interface ''Logger'')"
    by (simp add: typeObj_def)
  have mf: "missFailure (Implements greeterWorld)
     (findRegistration (registrations (providers greeterWorld 0)) (Interface ''Logger''))
     (Interface ''Logger'') = Some ?nf"
    by (simp add: greeterWorld_fields greeter_Logger_unregistered missFailure_def)
  note g = GetService_failure [OF c p greeterWorld_fields(1) t mf]
  have n: "needsInjection (VPtr (Struct ''EnglishGreeter'' greeterFields) 0)"
    by (simp add: needsInjection_def greeterFields_def injectable_def)
  have f: "0 < length greeterFields \<and> injectable (greeterFields ! 0)"
    "Type (greeterFields ! 0) = Interface ''Logger''"
    by (simp_all add: greeterFields_def injectable_def)
  from field_injection_is_best_effort [OF a, of 0 greeterFields 0 ?nf greeterWorld
      "''EnglishGreeter''" "VType (Interface ''Logger'')"
      "VPtr (Struct ''EnglishGreeter'' greeterFields) 0"]
  show ?thesis
    using r i g t n f by (simp add: greeterWorld_fields(9))
qed

text \<open>
  Where package syringe departs from claim C9: resolving \<^verbatim>\<open>Greeter\<close> in the example.
  Package main returns a new \<^verbatim>\<open>EnglishGreeter\<close> with the field \<^verbatim>\<open>Log\<close> unset, the failure
  to resolve \<^verbatim>\<open>Logger\<close> absorbed. In package syringe the call never returns.
\<close>

theorem unresolvable_field_blocks_in_syringe:
  "GetService_main 0 (VType (Interface ''Greeter'')) greeterProgram =
     Return (Inr (VPtr (Struct ''EnglishGreeter'' greeterFields) 0)) (resetStack 0 greeterWorld) \<and>
   memory (resetStack 0 greeterWorld) 0 = [VNil, VZero (Basic ''string''), VNil] \<and>
   GetService_syringe 0 (VType (Interface ''Greeter'')) greeterProgram = Deadlock"
proof -
  let ?w0 = "resetStack 0 (Lock 0 greeterProgram)"
  let ?w1 = "pushStack 0 (Interface ''Greeter'') ?w0"
  let ?S = "Struct ''EnglishGreeter'' greeterFields"
  have t: "typeObj (VType (Interface ''Greeter'')) = Some (Interface ''Greeter'')"
    by (simp add: typeObj_def)
  have f: "findRegistration [greeterRegistration] (Interface ''Greeter'') = Some greeterRegistration"
    by (simp add: findRegistration_def greeterRegistration_def)
  have reg: "Instance greeterRegistration = VNil" "Factory greeterRegistration = VNil"
    "Implementation greeterRegistration = VZero (Ptr ?S)" "Lifetime greeterRegistration = Transient"
    by (simp_all add: greeterRegistration_def)
  have it: "implType (VZero (Ptr ?S)) = Some (Ptr ?S)" by (simp add: implType_def)
  have inj: "injectDependencies_main 0 (VPtr ?S (allocated ?w1)) (snd (New ''EnglishGreeter'' greeterFields ?w1)) =
      Return None (snd (New ''EnglishGreeter'' greeterFields ?w1))"
    by (rule greeter_injection) (simp_all add: greeterProgram_fields)
  have ci: "createInstance_main 0 (VZero (Ptr ?S)) ?w1 =
      Return (Inr (VPtr ?S 0)) (snd (New ''EnglishGreeter'' greeterFields ?w1))"
    using inj by (simp add: createInstance_main_struct [OF it] greeterProgram_fields)
  have "resolveService_main 0 (Interface ''Greeter'') ?w0 =
      Return (Inr (VPtr ?S 0)) (popStack 0 (snd (New ''EnglishGreeter'' greeterFields ?w1)))"
    by (subst resolveService_main_miss)
       (simp_all add: greeterProgram_fields f reg ci cacheInstance_def deferPop_def)
  from GetService_main_result [OF t greeterProgram_fields(1) this]
  have main: "GetService_main 0 (VType (Interface ''Greeter'')) greeterProgram =
      Return (Inr (VPtr ?S 0)) (Unlock 0 (popStack 0 (snd (New ''EnglishGreeter'' greeterFields ?w1))))" .
  have w: "Unlock 0 (popStack 0 (snd (New ''EnglishGreeter'' greeterFields ?w1))) = resetStack 0 greeterWorld"
    by (rule world_eqI)
       (auto simp: greeterWorld_def Unlock_def popStack_def pushStack_def resetStack_def Lock_def
         New_def fun_eq_iff greeterProgram_fields)
  have m: "mu (providers ?w1 0)" by simp
  have "list_ex injectable greeterFields" by (simp add: greeterFields_def injectable_def)
  then have "createInstance_syringe 0 (VZero (Ptr ?S)) ?w1 = Deadlock"
    by (simp add: createInstance_syringe_locked [OF m it])
  then have "resolveService_syringe 0 (Interface ''Greeter'') ?w0 = Deadlock"
    by (subst resolveService_syringe_miss)
       (simp_all add: greeterProgram_fields f reg deferPop_def)
  then have "GetService_syringe 0 (VType (Interface ''Greeter'')) greeterProgram = Deadlock"
    by (simp add: GetService_syringe_unfold [OF t greeterProgram_fields(1)] deferUnlock_def)
  with main w show ?thesis by (simp add: greeterWorld_fields)
qed

section \<open>What a cache miss produces, and where it is written\<close>













section \<open>Lifetimes\<close>
















lemma resetStack_resetStack [simp]: "resetStack p (resetStack p w) = resetStack p w"
  by (rule world_eqI) (auto simp: resetStack_def fun_eq_iff)


section \<open>A cycle through field injection\<close>


lemma resolveService_syringe_cycle:
  "t \<in> set (resolutionStack (providers w p)) \<Longrightarrow>
   resolveService_syringe p t w =
     Return (Inl (Errorf_w (''circular dependency detected: '' @
       cyclePath (resolutionStack (providers w p)) t) ErrCircularDependency)) w"
  by (subst resolveService_syringe.simps) simp
















section \<open>Storing a nil service\<close>

text \<open>
  Package main stores whatever a field's resolution returned: \<^verbatim>\<open>fieldVal.Set\<close> is not
  guarded by \<^verbatim>\<open>service != nil\<close> as it is in package syringe. With a factory for \<^verbatim>\<open>Logger\<close>
  that returns \<^verbatim>\<open>nil, nil\<close>, the resolution of \<^verbatim>\<open>Greeter\<close> in the example panics.
\<close>

definition nilLoggerRegistration :: DependencyRegistration where
  "nilLoggerRegistration =
     \<lparr>ServiceType = Interface ''Logger'', Implementation = VNil,
      Factory = VFunc [providerType] [Interface ''Logger'', Interface ''error''] (VNil, None),
      Instance = VNil, Lifetime = Transient\<rparr>"

definition nilLoggerProgram :: world where
  "nilLoggerProgram =
     snd (BuildServiceProvider \<lparr>c_registrations = [greeterRegistration, nilLoggerRegistration]\<rparr>
       (startWorld exampleImplements))"

lemma nil_service_panics_in_main:
  "GetService_main 0 (VType (Interface ''Greeter'')) nilLoggerProgram =
     Panic ''reflect: call of reflect.Value.Set on zero Value''"
proof -
  let ?G = "Interface ''Greeter''" and ?L = "Interface ''Logger''"
  let ?w0 = "resetStack 0 (Lock 0 nilLoggerProgram)"
  let ?w2 = "snd (New ''EnglishGreeter'' greeterFields (pushStack 0 ?G ?w0))"
  have f: "\<not> mu (providers nilLoggerProgram 0)" "root (providers nilLoggerProgram 0) = 0"
    "registrations (providers nilLoggerProgram 0) = [greeterRegistration, nilLoggerRegistration]"
    "singletonCache (providers nilLoggerProgram 0) = Map.empty"
    "scopedCache (providers nilLoggerProgram 0) = Map.empty"
    "Implements nilLoggerProgram = exampleImplements" "allocated nilLoggerProgram = 0"
    by (simp_all add: nilLoggerProgram_def BuildServiceProvider_def startWorld_def Let_def)
  have r: "findRegistration [greeterRegistration, nilLoggerRegistration] ?G = Some greeterRegistration"
    "findRegistration [greeterRegistration, nilLoggerRegistration] ?L = Some nilLoggerRegistration"
    by (simp_all add: findRegistration_def greeterRegistration_def nilLoggerRegistration_def
        eval_nat_numeral)
  have g: "Instance greeterRegistration = VNil" "Factory greeterRegistration = VNil"
    "Implementation greeterRegistration = VZero (Ptr (Struct ''EnglishGreeter'' greeterFields))"
    "implType (VZero (Ptr (Struct ''EnglishGreeter'' greeterFields))) =
       Some (Ptr (Struct ''EnglishGreeter'' greeterFields))"
    by (simp_all add: greeterRegistration_def implType_def)
  have n: "Instance nilLoggerRegistration = VNil"
    "Factory nilLoggerRegistration = VFunc [providerType] [?L, Interface ''error''] (VNil, None)"
    "Lifetime nilLoggerRegistration = Transient"
    by (simp_all add: nilLoggerRegistration_def)
  have cf: "callFactory 0 (VFunc [providerType] [?L, Interface ''error''] (VNil, None)) ?L
      (pushStack 0 ?L ?w2) = Return (Inr VNil) (pushStack 0 ?L ?w2)"
    by (simp add: callFactory_def f exampleImplements_def errorType_def)
  have "resolveService_main 0 ?L ?w2 = Return (Inr VNil) ?w2"
    by (subst resolveService_main_miss) (simp_all add: f r n cf cacheInstance_def)
  moreover have "0 < length greeterFields" "Exported (greeterFields ! 0)"
    "Type (greeterFields ! 0) = ?L"
    by (simp_all add: greeterFields_def)
  ultimately have "injectFields_main 0 0 greeterFields 0 ?w2 =
      Panic ''reflect: call of reflect.Value.Set on zero Value''"
    by (subst injectFields_main.simps) simp
  then have "injectDependencies_main 0 (VPtr (Struct ''EnglishGreeter'' greeterFields) 0) ?w2 =
      Panic ''reflect: call of reflect.Value.Set on zero Value''"
    by (subst injectDependencies_main.simps) simp
  then have "createInstance_main 0 (VZero (Ptr (Struct ''EnglishGreeter'' greeterFields)))
      (pushStack 0 ?G ?w0) = Panic ''reflect: call of reflect.Value.Set on zero Value''"
    by (simp add: createInstance_main_struct [OF g(4)] f)
  then have "resolveService_main 0 ?G ?w0 = Panic ''reflect: call of reflect.Value.Set on zero Value''"
    by (subst resolveService_main_miss) (simp_all add: f r g deferPop_def)
  then show ?thesis
    by (simp add: GetService_main_unfold [of _ ?G] typeObj_def f deferUnlock_def)
qed

end
